theory Spec2Isabelle
  imports Complex_Main
begin

section \<open>Time values\<close>

text \<open>
  \<^verbatim>\<open>datetime\<close> and \<^verbatim>\<open>timedelta\<close> have a resolution of one microsecond: an instant is
  the number of microseconds since the epoch, a duration a number of microseconds.
  Python numbers that stand for seconds (\<^verbatim>\<open>5\<close>, \<^verbatim>\<open>0.1\<close>, \<^verbatim>\<open>-1\<close>) are rationals; a float is
  read as the exact rational it denotes.
\<close>

type_synonym datetime = int
type_synonym timedelta = int

definition round_half_even :: "rat \<Rightarrow> int" where
  "round_half_even y =
     (let f = \<lfloor>y\<rfloor>; r = y - of_int f in
      if r < 1 / 2 then f else if 1 / 2 < r then f + 1 else if even f then f else f + 1)"

text \<open>\<^verbatim>\<open>timedelta(seconds=x)\<close>: the duration of \<open>x\<close> seconds, rounded to the microsecond.\<close>

definition timedelta_seconds :: "rat \<Rightarrow> timedelta" where
  "timedelta_seconds x = round_half_even (x * 1000000)"

text \<open>
  The attribute \<^verbatim>\<open>.seconds\<close> of a \<^verbatim>\<open>timedelta\<close>: the whole seconds within the day
  (0 to 86399), one of the three normalised components days, seconds, microseconds.
\<close>

definition seconds :: "timedelta \<Rightarrow> int" where
  "seconds d = (d div 1000000) mod 86400"

section \<open>The objects\<close>

text \<open>
  A value passed as \<^verbatim>\<open>release_time\<close> or \<^verbatim>\<open>release_interval\<close>: a number of seconds, a
  \<^verbatim>\<open>timedelta\<close> or a \<^verbatim>\<open>datetime\<close>. The sentinel \<^verbatim>\<open>INF_RELEASE_TIME = -1\<close> is the number
  \<open>-1\<close>.
\<close>

datatype pyval = PNum rat | PDelta timedelta | PDatetime datetime

definition INF_RELEASE_TIME :: pyval where
  "INF_RELEASE_TIME = PNum (- 1)"

text \<open>
  The slot \<^verbatim>\<open>_release_time\<close>: every assignment of the source (lines 109, 129, 171, 181 and
  210) stores the sentinel or a \<^verbatim>\<open>datetime\<close>.
\<close>

datatype deadline = Unlimited | At datetime

text \<open>
  The maintenance thread \<^verbatim>\<open>_auto_releaser\<close> running \<^verbatim>\<open>_auto_release\<close>: at the head of the
  outer loop, inside the inner waiting loop, or past the outer loop.
\<close>

datatype thread = Loop_head | Waiting | Finished

text \<open>
  What a call can raise. \<open>EngineClosed\<close> is the engine refusing a closed handle,
  \<open>Reraised\<close> the exception of a block raised again; \<open>Unmodelled\<close> marks a pickled value
  whose Python type the typed record has no room for.
\<close>

datatype error =
  LevelDBAcquisitionFailure | ValueError | AttributeError | EngineClosed | Reraised
  | Unmodelled

text \<open>
  The slots of \<^verbatim>\<open>DBUnit\<close>. An engine handle is the number of the \<^verbatim>\<open>plyvel.DB\<close> call that
  made it. Of the condition variable \<^verbatim>\<open>lock\<close> the record keeps the number of
  \<^verbatim>\<open>notify()\<close> calls; its mutual exclusion makes every method below one atomic step.
\<close>

record DBUnit =
  default_timeout :: rat
  is_closed :: bool
  lock :: nat
  path :: string
  auto_release_interval :: rat
  auto_releaser :: thread
  db :: "nat option"
  release_time :: deadline
  retry_interval :: rat

text \<open>
  What the manager works against: the clock read by \<^verbatim>\<open>datetime.now()\<close>, and the storage
  engine (whether its \<open>n\<close>-th open succeeds or raises \<^verbatim>\<open>plyvel.Error\<close>, how many opens
  were tried, the handles closed so far, and the stored key-value pairs).
\<close>

record env =
  now :: datetime
  open_ok :: "nat \<Rightarrow> bool"
  opened :: nat
  closed_handles :: "nat list"
  store :: "string \<rightharpoonup> string"

type_synonym world = "DBUnit \<times> env"

section \<open>The lease manager\<close>

definition DBUnit_init :: "string \<Rightarrow> rat \<Rightarrow> rat \<Rightarrow> rat \<Rightarrow> DBUnit" where
  "DBUnit_init p ari ri dt =
     \<lparr>default_timeout = dt, is_closed = False, lock = 0, path = p,
      auto_release_interval = ari, auto_releaser = Loop_head, db = None,
      release_time = Unlimited, retry_interval = ri\<rparr>"

definition is_acquired :: "DBUnit \<Rightarrow> bool" where
  "is_acquired u = (case db u of None \<Rightarrow> False | Some h \<Rightarrow> True)"

definition releaser_is_suspended :: "DBUnit \<Rightarrow> bool" where
  "releaser_is_suspended u = (release_time u = Unlimited)"

text \<open>
  Lines 177 to 179, for a stored deadline that is a \<^verbatim>\<open>datetime\<close>: the comparison reads
  the attribute \<^verbatim>\<open>.seconds\<close> of the difference.
\<close>

definition differs :: "datetime \<Rightarrow> datetime \<Rightarrow> bool" where
  "differs t cur =
     ((cur < t \<and> 1 / 10 < (of_int (seconds (t - cur)) :: rat)) \<or>
      (t < cur \<and> 1 / 10 < (of_int (seconds (cur - t)) :: rat)))"

text \<open>The \<^verbatim>\<open>elif\<close> branch of \<^verbatim>\<open>_set_release_time\<close>, reached with a \<^verbatim>\<open>datetime\<close>.\<close>

fun update_deadline :: "datetime \<Rightarrow> world \<Rightarrow> world" where
  "update_deadline t (u, e) =
     (if (case release_time u of Unlimited \<Rightarrow> True | At cur \<Rightarrow> differs t cur)
      then (u\<lparr>release_time := At t, lock := Suc (lock u)\<rparr>, e)
      else (u, e))"

text \<open>
  \<^verbatim>\<open>_set_release_time\<close>. A number becomes the instant that many seconds from now (at
  least zero) and goes on to the \<^verbatim>\<open>elif\<close>; a \<^verbatim>\<open>timedelta\<close> is added to the clock in the second
  \<^verbatim>\<open>if\<close>, whose \<^verbatim>\<open>elif\<close> is then skipped, so nothing is stored.
\<close>

fun set_release_time :: "pyval \<Rightarrow> world \<Rightarrow> world" where
  "set_release_time release_time' (u, e) =
     (if release_time' = INF_RELEASE_TIME then (u\<lparr>release_time := Unlimited\<rparr>, e)
      else (case release_time' of
              PNum x \<Rightarrow> update_deadline (max 0 (timedelta_seconds x) + now e) (u, e)
            | PDelta d \<Rightarrow> (u, e)
            | PDatetime t \<Rightarrow> update_deadline t (u, e)))"

fun release :: "world \<Rightarrow> world" where
  "release (u, e) =
     (if is_acquired u then set_release_time (PDatetime (now e)) (u, e) else (u, e))"

fun wait_predicate :: "world \<Rightarrow> bool" where
  "wait_predicate (u, e) =
     (case db u of
        None \<Rightarrow> True
      | Some h \<Rightarrow> (case release_time u of Unlimited \<Rightarrow> True | At t \<Rightarrow> now e < t))"

section \<open>Acquisition\<close>

text \<open>Python's \<^verbatim>\<open>x or y\<close>: \<^verbatim>\<open>None\<close>, zero and the empty duration are false.\<close>

definition num_or :: "rat option \<Rightarrow> rat \<Rightarrow> rat" where
  "num_or x y = (case x of None \<Rightarrow> y | Some v \<Rightarrow> if v = 0 then y else v)"

definition val_or :: "pyval option \<Rightarrow> pyval \<Rightarrow> pyval" where
  "val_or x y =
     (case x of
        None \<Rightarrow> y
      | Some (PNum v) \<Rightarrow> if v = 0 then y else PNum v
      | Some (PDelta d) \<Rightarrow> if d = 0 then y else PDelta d
      | Some (PDatetime t) \<Rightarrow> PDatetime t)"

text \<open>\<^verbatim>\<open>_plyvel_db_factory\<close>: the next open of the engine; \<open>None\<close> is \<^verbatim>\<open>plyvel.Error\<close>.\<close>

definition plyvel_db_factory :: "env \<Rightarrow> nat option \<times> env" where
  "plyvel_db_factory e =
     (if open_ok e (opened e) then Some (opened e) else None, e\<lparr>opened := Suc (opened e)\<rparr>)"

text \<open>\<^verbatim>\<open>sleep(x)\<close> lets \<open>x\<close> seconds pass; the caller checks that \<open>x\<close> is not negative.\<close>

definition sleep :: "rat \<Rightarrow> env \<Rightarrow> env" where
  "sleep x e = e\<lparr>now := now e + timedelta_seconds x\<rparr>"

text \<open>
  A call either does not finish within the fuel (\<open>None\<close>), or raises, or returns; in both
  of the latter cases it leaves a world behind.
\<close>

type_synonym 'a outcome = "((error + 'a) \<times> world) option"

text \<open>
  The loop of \<^verbatim>\<open>acquire\<close> (lines 229 to 244), one unit of fuel for each pass. A failed open
  is caught and followed by \<^verbatim>\<open>sleep(self._retry_interval)\<close>, which raises \<^verbatim>\<open>ValueError\<close>
  for a negative interval.
\<close>

fun acquire_loop :: "nat \<Rightarrow> pyval \<Rightarrow> datetime \<Rightarrow> bool \<Rightarrow> world \<Rightarrow> bool outcome" where
  "acquire_loop 0 release_interval time_limit first_flag (u, e) = None"
| "acquire_loop (Suc n) release_interval time_limit first_flag (u, e) =
     (if first_flag \<or> now e < time_limit then
        (if is_acquired u then Some (Inr True, set_release_time release_interval (u, e))
         else (case plyvel_db_factory e of
                 (Some h, e') \<Rightarrow>
                   Some (Inr True, set_release_time release_interval (u\<lparr>db := Some h\<rparr>, e'))
               | (None, e') \<Rightarrow>
                   if retry_interval u < 0 then Some (Inl ValueError, (u, e'))
                   else acquire_loop n release_interval time_limit False
                          (u, sleep (retry_interval u) e')))
      else Some (Inr False, (u, e)))"

fun acquire :: "nat \<Rightarrow> pyval option \<Rightarrow> rat option \<Rightarrow> world \<Rightarrow> bool outcome" where
  "acquire fuel release_interval timeout (u, e) =
     acquire_loop fuel
       (val_or release_interval (PNum (auto_release_interval u)))
       (now e + timedelta_seconds (max (num_or timeout (default_timeout u)) 0))
       True (u, e)"

fun suspend_releaser :: "nat \<Rightarrow> bool \<Rightarrow> rat option \<Rightarrow> world \<Rightarrow> unit outcome" where
  "suspend_releaser fuel acquire' timeout (u, e) =
     (if is_acquired u then Some (Inr (), set_release_time INF_RELEASE_TIME (u, e))
      else if acquire' then
        (case acquire fuel (Some INF_RELEASE_TIME) timeout (u, e) of
           None \<Rightarrow> None
         | Some (Inl err, w) \<Rightarrow> Some (Inl err, w)
         | Some (Inr b, w) \<Rightarrow> Some (Inr (), w))
      else Some (Inr (), (u, e)))"

fun restart_releaser ::
  "nat \<Rightarrow> pyval option \<Rightarrow> bool \<Rightarrow> rat option \<Rightarrow> world \<Rightarrow> unit outcome" where
  "restart_releaser fuel release_interval acquire' timeout (u, e) =
     (if is_acquired u then
        Some (Inr (), set_release_time
                        (val_or release_interval (PNum (auto_release_interval u))) (u, e))
      else if acquire' then
        (case acquire fuel release_interval timeout (u, e) of
           None \<Rightarrow> None
         | Some (Inl err, w) \<Rightarrow> Some (Inl err, w)
         | Some (Inr b, w) \<Rightarrow> Some (Inr (), w))
      else Some (Inr (), (u, e)))"

section \<open>The maintenance thread\<close>

text \<open>
  One step of \<^verbatim>\<open>_auto_release\<close> under the lock. At the head of the outer loop it reads
  \<^verbatim>\<open>is_closed\<close>. In the inner loop it waits while \<^verbatim>\<open>_wait_predicate()\<close> holds (the lock is
  given up for the wait, so the world is as it was); otherwise it runs lines 207 to 210
  and is back at the head of the outer loop.
\<close>

fun auto_release_step :: "world \<Rightarrow> world" where
  "auto_release_step (u, e) =
     (case auto_releaser u of
        Loop_head \<Rightarrow>
          (if is_closed u then (u\<lparr>auto_releaser := Finished\<rparr>, e)
           else (u\<lparr>auto_releaser := Waiting\<rparr>, e))
      | Waiting \<Rightarrow>
          (if wait_predicate (u, e) then (u, e)
           else (case db u of
                   None \<Rightarrow> (u, e)
                 | Some h \<Rightarrow>
                     (u\<lparr>db := None, release_time := Unlimited, auto_releaser := Loop_head\<rparr>,
                      e\<lparr>closed_handles := h # closed_handles e\<rparr>)))
      | Finished \<Rightarrow> (u, e))"

text \<open>
  \<^verbatim>\<open>self._auto_releaser.join()\<close>: the caller is blocked and only the thread runs; a
  \<^verbatim>\<open>lock.wait(timeout=0.1)\<close> that nobody notifies ends after a tenth of a second.
\<close>

fun join :: "nat \<Rightarrow> world \<Rightarrow> world option" where
  "join 0 (u, e) = None"
| "join (Suc n) (u, e) =
     (if auto_releaser u = Finished then Some (u, e)
      else if auto_releaser u = Waiting \<and> wait_predicate (u, e)
           then join n (u, sleep (1 / 10) e)
           else join n (auto_release_step (u, e)))"

text \<open>
  \<^verbatim>\<open>close\<close>: the flag and \<^verbatim>\<open>release()\<close> under the lock (\<open>close_begin\<close>), then the join with
  the lock given up.
\<close>

fun close_begin :: "world \<Rightarrow> world" where
  "close_begin (u, e) = release (u\<lparr>is_closed := True\<rparr>, e)"

definition close :: "nat \<Rightarrow> world \<Rightarrow> world option" where
  "close fuel w = join fuel (close_begin w)"

section \<open>The operation facade\<close>

text \<open>
  \<^verbatim>\<open>acquire\<close> gives the lock back when it returns, and the wrapped method takes no lock:
  between the two the maintenance thread may run and time passes. A gap is what happens
  there, step by step; the empty gap is a wrapped method that runs at once.
\<close>

datatype gap_step = Thread_step | Wait nat

fun take_step :: "gap_step \<Rightarrow> world \<Rightarrow> world" where
  "take_step Thread_step (u, e) = auto_release_step (u, e)"
| "take_step (Wait d) (u, e) = (u, e\<lparr>now := now e + int d\<rparr>)"

fun run_gap :: "gap_step list \<Rightarrow> world \<Rightarrow> world" where
  "run_gap [] w = w"
| "run_gap (g # gs) w = run_gap gs (take_step g w)"

text \<open>
  \<^verbatim>\<open>load_leveldb_deco(release_interval, timeout)\<close>: the wrapped method runs after
  \<^verbatim>\<open>acquire\<close> has returned true, in the world the gap has left, and
  \<^verbatim>\<open>LevelDBAcquisitionFailure\<close> is raised when it has returned false.
\<close>

definition load_leveldb_deco ::
  "pyval option \<Rightarrow> rat option \<Rightarrow> (world \<Rightarrow> (error + 'a) \<times> world) \<Rightarrow> gap_step list \<Rightarrow>
     nat \<Rightarrow> world \<Rightarrow> 'a outcome"
where
  "load_leveldb_deco release_interval timeout func gap fuel w =
     (case acquire fuel release_interval timeout w of
        None \<Rightarrow> None
      | Some (Inl err, w') \<Rightarrow> Some (Inl err, w')
      | Some (Inr False, w') \<Rightarrow> Some (Inl LevelDBAcquisitionFailure, w')
      | Some (Inr True, w') \<Rightarrow> Some (func (run_gap gap w')))"

text \<open>
  The wrapped bodies go through the property \<^verbatim>\<open>db\<close>, which is \<^verbatim>\<open>self._db or {}\<close>: without a
  handle, \<^verbatim>\<open>get\<close> is the one of the empty dictionary and the other methods do not exist.
  The engine refuses a call on a handle that has been closed.
\<close>

fun db_get :: "string \<Rightarrow> string option \<Rightarrow> world \<Rightarrow> (error + string option) \<times> world" where
  "db_get key default' (u, e) =
     (case db u of
        None \<Rightarrow> (Inr default', (u, e))
      | Some h \<Rightarrow>
          if h \<in> set (closed_handles e) then (Inl EngineClosed, (u, e))
          else (Inr (case store e key of None \<Rightarrow> default' | Some v \<Rightarrow> Some v), (u, e)))"

fun db_put :: "string \<Rightarrow> string \<Rightarrow> world \<Rightarrow> (error + unit) \<times> world" where
  "db_put key val (u, e) =
     (case db u of
        None \<Rightarrow> (Inl AttributeError, (u, e))
      | Some h \<Rightarrow>
          if h \<in> set (closed_handles e) then (Inl EngineClosed, (u, e))
          else (Inr (), (u, e\<lparr>store := (store e)(key \<mapsto> val)\<rparr>)))"

fun db_delete :: "string \<Rightarrow> world \<Rightarrow> (error + unit) \<times> world" where
  "db_delete key (u, e) =
     (case db u of
        None \<Rightarrow> (Inl AttributeError, (u, e))
      | Some h \<Rightarrow>
          if h \<in> set (closed_handles e) then (Inl EngineClosed, (u, e))
          else (Inr (), (u, e\<lparr>store := (store e)(key := None)\<rparr>)))"

definition get ::
  "nat \<Rightarrow> string \<Rightarrow> string option \<Rightarrow> gap_step list \<Rightarrow> world \<Rightarrow> string option outcome"
where
  "get fuel key default' gap = load_leveldb_deco None None (db_get key default') gap fuel"

definition put :: "nat \<Rightarrow> string \<Rightarrow> string \<Rightarrow> gap_step list \<Rightarrow> world \<Rightarrow> unit outcome" where
  "put fuel key val gap = load_leveldb_deco None None (db_put key val) gap fuel"

definition delete :: "nat \<Rightarrow> string \<Rightarrow> gap_step list \<Rightarrow> world \<Rightarrow> unit outcome" where
  "delete fuel key gap = load_leveldb_deco None None (db_delete key) gap fuel"

text \<open>\<^verbatim>\<open>__enter__\<close> and \<^verbatim>\<open>__exit__\<close> of the manager; \<open>exc\<close> says that the block raised.\<close>

definition enter :: "nat \<Rightarrow> gap_step list \<Rightarrow> world \<Rightarrow> unit outcome" where
  "enter fuel gap =
     load_leveldb_deco (Some INF_RELEASE_TIME) None (\<lambda>w. (Inr (), w)) gap fuel"

definition exit :: "bool \<Rightarrow> world \<Rightarrow> (error + unit) \<times> world" where
  "exit exc w = (if exc then (Inl Reraised, w) else (Inr (), release w))"

section \<open>Scoped batch\<close>

text \<open>
  The engine's batch \<^verbatim>\<open>wb\<close>: the handle it was made on, the two flags it was made with
  and the buffered writes, oldest first.
\<close>

record WriteBatch =
  wb_db :: nat
  transaction :: bool
  sync :: bool
  buffered :: "(string \<times> string) list"

fun WriteBatch_init :: "bool \<Rightarrow> bool \<Rightarrow> world \<Rightarrow> (error + WriteBatch) \<times> world" where
  "WriteBatch_init transaction' sync' (u, e) =
     (case db u of
        None \<Rightarrow> (Inl AttributeError, (u, e))
      | Some h \<Rightarrow>
          if h \<in> set (closed_handles e) then (Inl EngineClosed, (u, e))
          else (Inr \<lparr>wb_db = h, transaction = transaction', sync = sync', buffered = []\<rparr>,
                (u, e)))"

definition write_batch ::
  "nat \<Rightarrow> bool \<Rightarrow> bool \<Rightarrow> gap_step list \<Rightarrow> world \<Rightarrow> WriteBatch outcome"
where
  "write_batch fuel transaction' sync' gap =
     load_leveldb_deco (Some INF_RELEASE_TIME) None (WriteBatch_init transaction' sync') gap
       fuel"

definition WriteBatch_put :: "string \<Rightarrow> string \<Rightarrow> WriteBatch \<Rightarrow> WriteBatch" where
  "WriteBatch_put key val b = b\<lparr>buffered := buffered b @ [(key, val)]\<rparr>"

definition wb_clear :: "WriteBatch \<Rightarrow> WriteBatch" where
  "wb_clear b = b\<lparr>buffered := []\<rparr>"

text \<open>The engine's \<^verbatim>\<open>wb.write()\<close>: every buffered write reaches the store, in order.\<close>

fun commit :: "(string \<times> string) list \<Rightarrow> (string \<rightharpoonup> string) \<Rightarrow> (string \<rightharpoonup> string)" where
  "commit [] m = m"
| "commit ((key, val) # kvs) m = commit kvs (m(key \<mapsto> val))"

definition wb_write :: "WriteBatch \<Rightarrow> env \<Rightarrow> error + env" where
  "wb_write b e =
     (if wb_db b \<in> set (closed_handles e) then Inl EngineClosed
      else Inr (e\<lparr>store := commit (buffered b) (store e)\<rparr>))"

fun WriteBatch_write :: "WriteBatch \<Rightarrow> world \<Rightarrow> (error + unit) \<times> world" where
  "WriteBatch_write b (u, e) =
     (case wb_write b e of
        Inl err \<Rightarrow> (Inl err, (u, e))
      | Inr e' \<Rightarrow> (Inr (), release (u, e')))"

definition WriteBatch_enter :: "nat \<Rightarrow> world \<Rightarrow> unit outcome" where
  "WriteBatch_enter fuel w = suspend_releaser fuel True None w"

text \<open>
  Reading \<^verbatim>\<open>self.wb.transaction\<close>. This is a fact of the engine, not of the source: plyvel
  keeps the flag of its \<^verbatim>\<open>WriteBatch\<close> in a private C field of the extension type, which
  Python code cannot read, so the attribute lookup raises \<^verbatim>\<open>AttributeError\<close>. (The
  engine contract of the specification gives a batch \<^verbatim>\<open>put\<close>, \<^verbatim>\<open>commit\<close> and \<^verbatim>\<open>clear\<close>, and
  no readable flag either.)
\<close>

definition wb_transaction :: "WriteBatch \<Rightarrow> error + bool" where
  "wb_transaction b = Inl AttributeError"

text \<open>
  \<^verbatim>\<open>WriteBatch.__exit__\<close>; \<open>exc\<close> says that the block raised. Line 53 reads the flag
  before anything else, and an exception there leaves the method before \<^verbatim>\<open>clear\<close>,
  \<^verbatim>\<open>write\<close> and \<^verbatim>\<open>release\<close>.
\<close>

fun WriteBatch_exit :: "bool \<Rightarrow> WriteBatch \<times> world \<Rightarrow> (error + unit) \<times> WriteBatch \<times> world" where
  "WriteBatch_exit exc (b, w) =
     (case wb_transaction b of
        Inl err \<Rightarrow> (Inl err, b, w)
      | Inr t \<Rightarrow>
          if t \<and> exc then (Inr (), wb_clear b, w)
          else (case WriteBatch_write b w of
                  (Inl err, w') \<Rightarrow> (Inl err, b, w')
                | (Inr x, w') \<Rightarrow> (Inr (), wb_clear b, w')))"

section \<open>Scoped iterator\<close>

text \<open>The slot \<^verbatim>\<open>iterator\<close> holds the engine's cursor, here the handle it reads.\<close>

record Iterator =
  include_key :: bool
  include_value :: bool
  iterator :: "nat option"

definition DBUnit_iterator ::
  "nat \<Rightarrow> bool \<Rightarrow> bool \<Rightarrow> gap_step list \<Rightarrow> world \<Rightarrow> Iterator outcome"
where
  "DBUnit_iterator fuel include_key' include_value' gap =
     load_leveldb_deco (Some INF_RELEASE_TIME) None
       (\<lambda>w. (Inr \<lparr>include_key = include_key', include_value = include_value',
                   iterator = None\<rparr>, w)) gap fuel"

fun Iterator_close :: "Iterator \<times> world \<Rightarrow> Iterator \<times> world" where
  "Iterator_close (it, w) = (it\<lparr>iterator := None\<rparr>, release w)"

text \<open>\<^verbatim>\<open>__del__\<close>: the object is dropped; it closes only when a cursor is attached.\<close>

fun Iterator_del :: "Iterator \<times> world \<Rightarrow> Iterator \<times> world" where
  "Iterator_del (it, w) =
     (case iterator it of None \<Rightarrow> (it, w) | Some c \<Rightarrow> Iterator_close (it, w))"

text \<open>Line 77: \<^verbatim>\<open>while not self.udb.acquire(release_interval=INF_RELEASE_TIME): pass\<close>.\<close>

fun acquire_until :: "nat \<Rightarrow> world \<Rightarrow> unit outcome" where
  "acquire_until 0 w = None"
| "acquire_until (Suc n) w =
     (case acquire (Suc n) (Some INF_RELEASE_TIME) None w of
        None \<Rightarrow> None
      | Some (Inl err, w') \<Rightarrow> Some (Inl err, w')
      | Some (Inr True, w') \<Rightarrow> Some (Inr (), w')
      | Some (Inr False, w') \<Rightarrow> acquire_until n w')"

text \<open>
  The generator \<^verbatim>\<open>__iter__\<close> from its first advance to the attached cursor, its calls
  taken one after the other with nothing running between them. An exception on the way
  runs the \<^verbatim>\<open>finally\<close> clause, as exhaustion and an exception while iterating do later:
  that clause is \<open>Iterator_close\<close>.
\<close>

fun Iterator_iter :: "nat \<Rightarrow> Iterator \<times> world \<Rightarrow> ((error + unit) \<times> Iterator \<times> world) option" where
  "Iterator_iter fuel (it, (u, e)) =
     (case (if is_acquired u then suspend_releaser fuel True None (u, e)
            else acquire_until fuel (u, e)) of
        None \<Rightarrow> None
      | Some (Inl err, w') \<Rightarrow> Some (Inl err, Iterator_close (it, w'))
      | Some (Inr x, (u', e')) \<Rightarrow>
          (case db u' of
             None \<Rightarrow> Some (Inl AttributeError, Iterator_close (it, (u', e')))
           | Some h \<Rightarrow> Some (Inr (), it\<lparr>iterator := Some h\<rparr>, (u', e'))))"

section \<open>Pickling\<close>

datatype pyobj = OPath string | ONum rat

text \<open>\<^verbatim>\<open>__getstate__\<close>: the dictionary, in the order of its literal.\<close>

definition getstate :: "DBUnit \<Rightarrow> (string \<times> pyobj) list" where
  "getstate u =
     [(''default_timeout'', ONum (default_timeout u)),
      (''path'', OPath (path u)),
      (''_auto_release_interval'', ONum (auto_release_interval u)),
      (''_retry_interval'', ONum (retry_interval u))]"

text \<open>
  \<^verbatim>\<open>setattr(self, k, v)\<close> inside \<^verbatim>\<open>__setstate__\<close>. A name outside \<^verbatim>\<open>__slots__\<close> raises
  \<^verbatim>\<open>AttributeError\<close>. The five slots that are not configuration are assigned again by
  lines 129 to 134, whatever was stored here, so the record is left alone for them.
\<close>

definition setattr :: "DBUnit \<Rightarrow> string \<Rightarrow> pyobj \<Rightarrow> error + DBUnit" where
  "setattr u k v =
     (if k = ''default_timeout'' then
        (case v of ONum x \<Rightarrow> Inr (u\<lparr>default_timeout := x\<rparr>) | OPath p \<Rightarrow> Inl Unmodelled)
      else if k = ''path'' then
        (case v of OPath p \<Rightarrow> Inr (u\<lparr>path := p\<rparr>) | ONum x \<Rightarrow> Inl Unmodelled)
      else if k = ''_auto_release_interval'' then
        (case v of ONum x \<Rightarrow> Inr (u\<lparr>auto_release_interval := x\<rparr>) | OPath p \<Rightarrow> Inl Unmodelled)
      else if k = ''_retry_interval'' then
        (case v of ONum x \<Rightarrow> Inr (u\<lparr>retry_interval := x\<rparr>) | OPath p \<Rightarrow> Inl Unmodelled)
      else if k \<in> set [''is_closed'', ''lock'', ''_auto_releaser'', ''_db'', ''_release_time'']
        then Inr u
      else Inl AttributeError)"

fun setattr_items :: "DBUnit \<Rightarrow> (string \<times> pyobj) list \<Rightarrow> error + DBUnit" where
  "setattr_items u [] = Inr u"
| "setattr_items u ((k, v) # kvs) =
     (case setattr u k v of Inl err \<Rightarrow> Inl err | Inr u' \<Rightarrow> setattr_items u' kvs)"

text \<open>
  \<^verbatim>\<open>__setstate__\<close> on the blank object \<open>self\<close> that unpickling has allocated: its slots
  hold nothing yet, so the result must not depend on them.
\<close>

definition setstate :: "DBUnit \<Rightarrow> (string \<times> pyobj) list \<Rightarrow> error + DBUnit" where
  "setstate self state =
     (case setattr_items self state of
        Inl err \<Rightarrow> Inl err
      | Inr u \<Rightarrow>
          Inr (u\<lparr>release_time := Unlimited, db := None, lock := 0, is_closed := False,
                 auto_releaser := Loop_head\<rparr>))"

section \<open>Reachable worlds\<close>

text \<open>
  The calls a client can make on a manager and on the batches and iterators bound to it.
  A call is one step of the system; a call through the facade carries its gap, and
  \<^verbatim>\<open>close\<close> is its locked part, the join being steps of the thread.
\<close>

datatype call =
    Acquire "pyval option" "rat option"
  | Release
  | Suspend_releaser bool "rat option"
  | Restart_releaser "pyval option" bool "rat option"
  | Close
  | Get string "string option" "gap_step list"
  | Put string string "gap_step list"
  | Delete string "gap_step list"
  | Make_iterator bool bool "gap_step list"
  | Make_write_batch bool bool "gap_step list"
  | Enter "gap_step list"
  | Exit bool
  | Batch_enter
  | Batch_write WriteBatch
  | Batch_exit bool WriteBatch
  | Iter_advance Iterator
  | Iter_close Iterator
  | Iter_del Iterator

fun perform :: "nat \<Rightarrow> call \<Rightarrow> world \<Rightarrow> world option" where
  "perform fuel (Acquire ri timeout) w = map_option snd (acquire fuel ri timeout w)"
| "perform fuel Release w = Some (release w)"
| "perform fuel (Suspend_releaser a timeout) w =
     map_option snd (suspend_releaser fuel a timeout w)"
| "perform fuel (Restart_releaser ri a timeout) w =
     map_option snd (restart_releaser fuel ri a timeout w)"
| "perform fuel Close w = Some (close_begin w)"
| "perform fuel (Get key d gap) w = map_option snd (get fuel key d gap w)"
| "perform fuel (Put key val gap) w = map_option snd (put fuel key val gap w)"
| "perform fuel (Delete key gap) w = map_option snd (delete fuel key gap w)"
| "perform fuel (Make_iterator ik iv gap) w =
     map_option snd (DBUnit_iterator fuel ik iv gap w)"
| "perform fuel (Make_write_batch t s gap) w = map_option snd (write_batch fuel t s gap w)"
| "perform fuel (Enter gap) w = map_option snd (enter fuel gap w)"
| "perform fuel (Exit exc) w = Some (snd (exit exc w))"
| "perform fuel Batch_enter w = map_option snd (WriteBatch_enter fuel w)"
| "perform fuel (Batch_write b) w = Some (snd (WriteBatch_write b w))"
| "perform fuel (Batch_exit exc b) w = Some (snd (snd (WriteBatch_exit exc (b, w))))"
| "perform fuel (Iter_advance it) w = map_option (\<lambda>r. snd (snd r)) (Iterator_iter fuel (it, w))"
| "perform fuel (Iter_close it) w = Some (snd (Iterator_close (it, w)))"
| "perform fuel (Iter_del it) w = Some (snd (Iterator_del (it, w)))"

text \<open>
  A world is reachable when it is that of a manager just constructed or just unpickled,
  or comes from a reachable one by the passing of time, a step of the maintenance thread
  or a call.
\<close>

inductive reachable :: "world \<Rightarrow> bool" where
  constructed: "reachable (DBUnit_init p ari ri dt, e)"
| unpickled: "setstate self state = Inr u \<Longrightarrow> reachable (u, e)"
| time_passes: "reachable (u, e) \<Longrightarrow> 0 \<le> d \<Longrightarrow> reachable (u, e\<lparr>now := now e + d\<rparr>)"
| thread_runs: "reachable w \<Longrightarrow> reachable (auto_release_step w)"
| called: "reachable w \<Longrightarrow> perform fuel c w = Some w' \<Longrightarrow> reachable w'"

text \<open>
  The deadline as the specification names it: absent without a handle, indefinite or an
  instant with one. The source has one sentinel for the first two.
\<close>

datatype spec_deadline = Absent | Indefinite | Instant datetime

definition spec_deadline_of :: "DBUnit \<Rightarrow> spec_deadline" where
  "spec_deadline_of u =
     (case release_time u of
        At t \<Rightarrow> Instant t
      | Unlimited \<Rightarrow> if is_acquired u then Indefinite else Absent)"

section \<open>The invariant and sample worlds\<close>

text \<open>
  \<open>lease_ok\<close> is the invariant of the two slots \<^verbatim>\<open>_db\<close> and \<^verbatim>\<open>_release_time\<close>. The other
  definitions are concrete managers, batches, iterators and worlds on which the
  properties below are run: a manager with the constructor's defaults, an engine that
  always opens and one that never does, and the worlds a few calls lead to.
\<close>

definition lease_ok :: "world \<Rightarrow> bool" where
  "lease_ok w = (case db (fst w) of None \<Rightarrow> release_time (fst w) = Unlimited | Some h \<Rightarrow> True)"

definition idle_env :: env where
  "idle_env = \<lparr>now = 0, open_ok = (\<lambda>n. True), opened = 0, closed_handles = [], store = Map.empty\<rparr>"

definition busy_env :: env where
  "busy_env = \<lparr>now = 0, open_ok = (\<lambda>n. False), opened = 0, closed_handles = [], store = Map.empty\<rparr>"

definition default_unit :: DBUnit where
  "default_unit = DBUnit_init ''db'' 5 (1 / 10) 5"

definition started_world :: world where
  "started_world = (default_unit\<lparr>auto_releaser := Waiting\<rparr>, idle_env)"

definition held_world :: world where
  "held_world =
     (default_unit\<lparr>auto_releaser := Waiting, db := Some 0, release_time := At 5000000, lock := 1\<rparr>,
      idle_env\<lparr>opened := 1\<rparr>)"

definition entered_world :: world where
  "entered_world =
     (default_unit\<lparr>auto_releaser := Waiting, db := Some 0\<rparr>, idle_env\<lparr>opened := 1\<rparr>)"

definition closed_world :: world where
  "closed_world =
     (default_unit\<lparr>is_closed := True, auto_releaser := Finished, lock := 2\<rparr>,
      idle_env\<lparr>opened := 1, closed_handles := [0]\<rparr>)"

definition reopened_world :: world where
  "reopened_world =
     (default_unit\<lparr>is_closed := True, auto_releaser := Finished, lock := 3, db := Some 1,
        release_time := At 5000000\<rparr>,
      idle_env\<lparr>opened := 2, closed_handles := [0]\<rparr>)"

definition written_world :: world where
  "written_world =
     (default_unit\<lparr>auto_releaser := Waiting, db := Some 0, release_time := At 5000000, lock := 1\<rparr>,
      idle_env\<lparr>opened := 1, store := [''a'' \<mapsto> ''1''], now := 50000\<rparr>)"

definition tx_batch :: WriteBatch where
  "tx_batch = \<lparr>wb_db = 0, transaction = True, sync = False, buffered = []\<rparr>"

definition fresh_iterator :: Iterator where
  "fresh_iterator = \<lparr>include_key = True, include_value = True, iterator = None\<rparr>"

definition leased_until :: "datetime \<Rightarrow> world" where
  "leased_until t =
     (default_unit\<lparr>auto_releaser := Waiting, db := Some 0, release_time := At t, lock := 1\<rparr>,
      idle_env\<lparr>opened := 1\<rparr>)"

definition hurried_unit :: DBUnit where
  "hurried_unit = DBUnit_init ''db'' 5 (1 / 10) (1 / 10)"

definition plain_batch :: WriteBatch where
  "plain_batch = \<lparr>wb_db = 0, transaction = False, sync = False, buffered = [(''k'', ''v'')]\<rparr>"

section \<open>Properties\<close>

subsection \<open>Evaluation is by named equations\<close>

text \<open>
  The equations of the methods are taken out of the simplifier's set, so that the facts
  below rewrite calls as wholes and a proof unfolds a method where it means to.
\<close>

declare update_deadline.simps [simp del] set_release_time.simps [simp del]
  release.simps [simp del] acquire.simps [simp del] suspend_releaser.simps [simp del]
  restart_releaser.simps [simp del] close_begin.simps [simp del]
  auto_release_step.simps [simp del] WriteBatch_write.simps [simp del]
  WriteBatch_exit.simps [simp del] Iterator_close.simps [simp del]
  Iterator_del.simps [simp del] Iterator_iter.simps [simp del]

subsection \<open>Durations\<close>

lemma timedelta_seconds_0: "timedelta_seconds 0 = 0"
  by (simp add: timedelta_seconds_def round_half_even_def)

lemma timedelta_seconds_5: "timedelta_seconds 5 = 5000000"
  by (simp add: timedelta_seconds_def round_half_even_def)

lemma timedelta_seconds_tenth: "timedelta_seconds (1 / 10) = 100000"
  by (simp add: timedelta_seconds_def round_half_even_def)

lemma round_half_even_nonneg: "0 \<le> y \<Longrightarrow> 0 \<le> round_half_even y"
  by (auto simp: round_half_even_def Let_def)

lemma timedelta_seconds_nonneg: "0 \<le> x \<Longrightarrow> 0 \<le> timedelta_seconds x"
  by (simp add: timedelta_seconds_def round_half_even_nonneg)

subsection \<open>Deadline updates\<close>

lemma update_deadline_db: "db (fst (update_deadline t w)) = db (fst w)"
  by (cases w) (simp add: update_deadline.simps)

lemma set_release_time_db: "db (fst (set_release_time rt w)) = db (fst w)"
  by (cases w; cases rt) (simp_all add: set_release_time.simps update_deadline_db)

lemma update_deadline_env: "snd (update_deadline t w) = snd w"
  by (cases w) (simp add: update_deadline.simps)

lemma set_release_time_env: "snd (set_release_time rt w) = snd w"
  by (cases w; cases rt) (simp_all add: set_release_time.simps update_deadline_env)

lemma release_db: "db (fst (release w)) = db (fst w)"
  by (cases w) (simp add: release.simps set_release_time_db)

lemma release_env: "snd (release w) = snd w"
  by (cases w) (simp add: release.simps set_release_time_env)

lemma set_release_time_is_closed:
  "set_release_time rt (u\<lparr>is_closed := c\<rparr>, e) =
     (fst (set_release_time rt (u, e))\<lparr>is_closed := c\<rparr>, snd (set_release_time rt (u, e)))"
  by (cases rt) (simp_all add: set_release_time.simps update_deadline.simps)

lemma set_release_time_closed_flag:
  "is_closed (fst (set_release_time rt w)) = is_closed (fst w)"
  by (cases w; cases rt) (simp_all add: set_release_time.simps update_deadline.simps)

lemma set_release_time_unlimited:
  "set_release_time INF_RELEASE_TIME (v, e0) = (v\<lparr>release_time := Unlimited\<rparr>, e0)"
  by (simp add: set_release_time.simps)

lemma release_of_lease:
  "is_acquired u \<Longrightarrow> release_time u = Unlimited \<Longrightarrow>
   release (u, e) = (u\<lparr>release_time := At (now e), lock := Suc (lock u)\<rparr>, e)"
  by (simp add: release.simps set_release_time.simps update_deadline.simps
      INF_RELEASE_TIME_def)

lemma differs_near: "\<bar>t - cur\<bar> \<le> 100000 \<Longrightarrow> \<not> differs t cur"
  by (auto simp: differs_def seconds_def)

lemma differs_far:
  assumes "1000000 \<le> \<bar>t - cur\<bar>" and "\<bar>t - cur\<bar> < 86400000000"
  shows "differs t cur"
proof -
  have s: "1 \<le> seconds d" if "1000000 \<le> d" "d < 86400000000" for d
  proof -
    from that have "1 \<le> d div 1000000" and "d div 1000000 < 86400"
      by simp_all
    then show ?thesis by (simp add: seconds_def)
  qed
  from assms consider "cur < t" "1000000 \<le> t - cur" "t - cur < 86400000000"
    | "t < cur" "1000000 \<le> cur - t" "cur - t < 86400000000"
    by (cases "cur < t") (simp_all add: abs_if split: if_splits)
  then show ?thesis
  proof cases
    case 1
    from s [OF 1(2,3)] 1(1) show ?thesis by (simp add: differs_def)
  next
    case 2
    from s [OF 2(2,3)] 2(1) show ?thesis by (simp add: differs_def)
  qed
qed

lemma set_release_time_number_exact:
  assumes "set_release_time (PNum x) (v, e0) = (u1, e1)"
  shows "db u1 = db v \<and> e1 = e0 \<and>
    release_time u1 =
      (if x = - 1 then Unlimited
       else case release_time v of
              Unlimited \<Rightarrow> At (max 0 (timedelta_seconds x) + now e1)
            | At cur \<Rightarrow>
                if differs (max 0 (timedelta_seconds x) + now e1) cur
                then At (max 0 (timedelta_seconds x) + now e1) else At cur)"
  using assms
  by (auto simp: set_release_time.simps update_deadline.simps INF_RELEASE_TIME_def
      split: if_splits deadline.splits)

subsection \<open>The acquisition loop\<close>

lemma acquire_loop_engine:
  "acquire_loop fuel ri tlim ff (u, e) = Some (r, u1, e1) \<Longrightarrow>
   store e1 = store e \<and> closed_handles e1 = closed_handles e"
proof (induction fuel arbitrary: e ff)
  case 0
  then show ?case by simp
next
  case (Suc n)
  show ?case
  proof (cases "(ff \<or> now e < tlim) \<and> \<not> is_acquired u \<and> \<not> open_ok e (opened e) \<and> \<not> retry_interval u < 0")
    case True
    with Suc.prems
    have "acquire_loop n ri tlim False (u, sleep (retry_interval u) (e\<lparr>opened := Suc (opened e)\<rparr>)) = Some (r, u1, e1)"
      by (simp add: plyvel_db_factory_def)
    from Suc.IH [OF this] show ?thesis by (simp add: sleep_def)
  next
    case False
    have "snd (set_release_time ri v) = snd v" for v by (rule set_release_time_env)
    from this [of "(u, e)"] this [of "(u\<lparr>db := Some (opened e)\<rparr>, e\<lparr>opened := Suc (opened e)\<rparr>)"]
      False Suc.prems
    show ?thesis
      by (auto simp: plyvel_db_factory_def split: if_splits)
  qed
qed

lemma acquire_loop_False:
  "acquire_loop fuel ri tlim ff (u, e) = Some (Inr False, u1, e1) \<Longrightarrow>
   u1 = u \<and> (ff \<longrightarrow> \<not> is_acquired u)"
proof (induction fuel arbitrary: e ff)
  case 0
  then show ?case by simp
next
  case (Suc n)
  show ?case
  proof (cases "(ff \<or> now e < tlim) \<and> \<not> is_acquired u \<and> \<not> open_ok e (opened e) \<and> \<not> retry_interval u < 0")
    case True
    with Suc.prems
    have "acquire_loop n ri tlim False (u, sleep (retry_interval u) (e\<lparr>opened := Suc (opened e)\<rparr>)) = Some (Inr False, u1, e1)"
      by (simp add: plyvel_db_factory_def)
    from Suc.IH [OF this] True show ?thesis by simp
  next
    case False
    with Suc.prems show ?thesis
      by (auto simp: plyvel_db_factory_def split: if_splits)
  qed
qed

lemma acquire_loop_True:
  "acquire_loop fuel ri tlim ff (u, e) = Some (Inr True, u1, e1) \<Longrightarrow>
   \<exists>v e0. release_time v = release_time u \<and> is_acquired v \<and>
     set_release_time ri (v, e0) = (u1, e1)"
proof (induction fuel arbitrary: e ff)
  case 0
  then show ?case by simp
next
  case (Suc n)
  show ?case
  proof (cases "(ff \<or> now e < tlim) \<and> \<not> is_acquired u \<and> \<not> open_ok e (opened e) \<and> \<not> retry_interval u < 0")
    case True
    with Suc.prems
    have "acquire_loop n ri tlim False (u, sleep (retry_interval u) (e\<lparr>opened := Suc (opened e)\<rparr>)) = Some (Inr True, u1, e1)"
      by (simp add: plyvel_db_factory_def)
    from Suc.IH [OF this] show ?thesis .
  next
    case False
    show ?thesis
    proof (cases "is_acquired u")
      case True
      with Suc.prems have "set_release_time ri (u, e) = (u1, e1)"
        by (auto split: if_splits)
      with True show ?thesis by blast
    next
      case na: False
      with False Suc.prems
      have "set_release_time ri (u\<lparr>db := Some (opened e)\<rparr>, e\<lparr>opened := Suc (opened e)\<rparr>) = (u1, e1)"
        by (auto simp: plyvel_db_factory_def split: if_splits)
      moreover have "is_acquired (u\<lparr>db := Some (opened e)\<rparr>)"
        and "release_time (u\<lparr>db := Some (opened e)\<rparr>) = release_time u"
        by (simp_all add: is_acquired_def)
      ultimately show ?thesis by blast
    qed
  qed
qed

lemma acquire_loop_is_closed:
  "acquire_loop fuel ri tlim ff (u, e) = Some (r, u', e') \<Longrightarrow>
   acquire_loop fuel ri tlim ff (u\<lparr>is_closed := c\<rparr>, e) = Some (r, u'\<lparr>is_closed := c\<rparr>, e')"
proof (induction fuel arbitrary: e ff)
  case 0
  then show ?case by simp
next
  case (Suc n)
  have key: "set_release_time ri (v\<lparr>is_closed := c\<rparr>, e0) = (u'\<lparr>is_closed := c\<rparr>, e')"
    if "set_release_time ri (v, e0) = (u', e')" for v e0
    using that by (simp add: set_release_time_is_closed)
  have sw: "u\<lparr>is_closed := c, db := Some h\<rparr> = u\<lparr>db := Some h, is_closed := c\<rparr>" for h
    by simp
  consider (late) "\<not> (ff \<or> now e < tlim)"
    | (already) "ff \<or> now e < tlim" "is_acquired u"
    | (opens) "ff \<or> now e < tlim" "\<not> is_acquired u" "open_ok e (opened e)"
    | (raises) "ff \<or> now e < tlim" "\<not> is_acquired u" "\<not> open_ok e (opened e)"
        "retry_interval u < 0"
    | (retries) "ff \<or> now e < tlim" "\<not> is_acquired u" "\<not> open_ok e (opened e)"
        "\<not> retry_interval u < 0"
    by blast
  then show ?case
  proof cases
    case late
    with Suc.prems show ?thesis by auto
  next
    case already
    with Suc.prems have "set_release_time ri (u, e) = (u', e')" and "r = Inr True" by auto
    with already key [of u e] show ?thesis by (auto simp: is_acquired_def)
  next
    case opens
    with Suc.prems
    have "set_release_time ri (u\<lparr>db := Some (opened e)\<rparr>, e\<lparr>opened := Suc (opened e)\<rparr>) = (u', e')"
      and "r = Inr True"
      by (auto simp: plyvel_db_factory_def)
    with opens key [of "u\<lparr>db := Some (opened e)\<rparr>" "e\<lparr>opened := Suc (opened e)\<rparr>"]
    show ?thesis
      by (auto simp: plyvel_db_factory_def is_acquired_def sw)
  next
    case raises
    with Suc.prems show ?thesis by (auto simp: plyvel_db_factory_def is_acquired_def)
  next
    case retries
    with Suc.prems
    have "acquire_loop n ri tlim False (u, sleep (retry_interval u) (e\<lparr>opened := Suc (opened e)\<rparr>)) = Some (r, u', e')"
      by (auto simp: plyvel_db_factory_def)
    from Suc.IH [OF this] retries show ?thesis
      by (auto simp: plyvel_db_factory_def is_acquired_def)
  qed
qed

lemma acquire_indefinite:
  assumes "acquire fuel (Some INF_RELEASE_TIME) timeout w = Some (Inr True, u1, e1)"
  shows "is_acquired u1 \<and> release_time u1 = Unlimited"
proof (cases w)
  case (Pair u e)
  have "val_or (Some INF_RELEASE_TIME) (PNum (auto_release_interval u)) = INF_RELEASE_TIME"
    by (simp add: val_or_def INF_RELEASE_TIME_def)
  with assms Pair obtain tlim where
    "acquire_loop fuel INF_RELEASE_TIME tlim True (u, e) = Some (Inr True, u1, e1)"
    by (simp add: acquire.simps)
  from acquire_loop_True [OF this] obtain v e0 where "is_acquired v"
    and "set_release_time INF_RELEASE_TIME (v, e0) = (u1, e1)"
    by blast
  then show ?thesis by (auto simp: set_release_time_unlimited is_acquired_def)
qed

lemma deco_False:
  "acquire fuel ri timeout w = Some (Inr False, w1) \<Longrightarrow>
   load_leveldb_deco ri timeout func gap fuel w = Some (Inl LevelDBAcquisitionFailure, w1)"
  by (simp add: load_leveldb_deco_def)

lemma deco_True:
  "acquire fuel ri timeout w = Some (Inr True, w1) \<Longrightarrow>
   load_leveldb_deco ri timeout func gap fuel w = Some (func (run_gap gap w1))"
  by (simp add: load_leveldb_deco_def)

subsection \<open>Acquisition returns\<close>

text \<open>
  With a retry interval of at least a microsecond every pass that fails moves the clock
  towards the time limit, so some amount of fuel is enough for \<^verbatim>\<open>acquire\<close> to return.
\<close>

lemma acquire_loop_returns_later:
  assumes "0 < timedelta_seconds (retry_interval u)"
  shows "\<exists>fuel r w'. acquire_loop fuel ri tlim False (u, e) = Some (r, w')"
proof (induction "nat (tlim - now e)" arbitrary: e rule: less_induct)
  case less
  consider (late) "\<not> now e < tlim"
    | (already) "now e < tlim" "is_acquired u"
    | (opens) "now e < tlim" "\<not> is_acquired u" "open_ok e (opened e)"
    | (raises) "now e < tlim" "\<not> is_acquired u" "\<not> open_ok e (opened e)"
        "retry_interval u < 0"
    | (retries) "now e < tlim" "\<not> is_acquired u" "\<not> open_ok e (opened e)"
        "\<not> retry_interval u < 0"
    by blast
  then show ?case
  proof cases
    case late
    then have "acquire_loop (Suc 0) ri tlim False (u, e) = Some (Inr False, u, e)" by simp
    then show ?thesis by blast
  next
    case already
    then have "acquire_loop (Suc 0) ri tlim False (u, e) =
        Some (Inr True, set_release_time ri (u, e))" by simp
    then show ?thesis by blast
  next
    case opens
    then have "acquire_loop (Suc 0) ri tlim False (u, e) =
        Some (Inr True, set_release_time ri
          (u\<lparr>db := Some (opened e)\<rparr>, e\<lparr>opened := Suc (opened e)\<rparr>))"
      by (simp add: plyvel_db_factory_def)
    then show ?thesis by blast
  next
    case raises
    then have "acquire_loop (Suc 0) ri tlim False (u, e) =
        Some (Inl ValueError, u, e\<lparr>opened := Suc (opened e)\<rparr>)"
      by (simp add: plyvel_db_factory_def)
    then show ?thesis by blast
  next
    case retries
    define e' where "e' = sleep (retry_interval u) (e\<lparr>opened := Suc (opened e)\<rparr>)"
    from assms retries(1) have "nat (tlim - now e') < nat (tlim - now e)"
      by (simp add: e'_def sleep_def)
    from less [OF this] obtain fuel r w' where
      "acquire_loop fuel ri tlim False (u, e') = Some (r, w')" by blast
    with retries have "acquire_loop (Suc fuel) ri tlim False (u, e) = Some (r, w')"
      by (simp add: plyvel_db_factory_def e'_def)
    then show ?thesis by blast
  qed
qed

lemma acquire_returns:
  assumes "0 < timedelta_seconds (retry_interval u)"
  shows "\<exists>fuel r w'. acquire fuel ri timeout (u, e) = Some (r, w')"
proof -
  define ri' where "ri' = val_or ri (PNum (auto_release_interval u))"
  define tlim where
    "tlim = now e + timedelta_seconds (max (num_or timeout (default_timeout u)) 0)"
  define e' where "e' = sleep (retry_interval u) (e\<lparr>opened := Suc (opened e)\<rparr>)"
  from acquire_loop_returns_later [OF assms] obtain fuel r w' where
    l: "acquire_loop fuel ri' tlim False (u, e') = Some (r, w')" by blast
  have "\<exists>fuel r w'. acquire_loop fuel ri' tlim True (u, e) = Some (r, w')"
  proof (cases "\<not> is_acquired u \<and> \<not> open_ok e (opened e) \<and> \<not> retry_interval u < 0")
    case True
    with l have "acquire_loop (Suc fuel) ri' tlim True (u, e) = Some (r, w')"
      by (simp add: plyvel_db_factory_def e'_def)
    then show ?thesis by blast
  next
    case False
    then have "\<exists>r w'. acquire_loop (Suc 0) ri' tlim True (u, e) = Some (r, w')"
      by (auto simp: plyvel_db_factory_def)
    then show ?thesis by blast
  qed
  then show ?thesis by (simp add: acquire.simps ri'_def tlim_def)
qed

subsection \<open>The invariant is kept by every step\<close>

lemma lease_ok_held: "db (fst w) = Some h \<Longrightarrow> lease_ok w"
  by (simp add: lease_ok_def)

lemma lease_ok_set_held:
  "is_acquired (fst w) \<Longrightarrow> lease_ok (set_release_time rt w)"
  by (auto simp: lease_ok_def set_release_time_db is_acquired_def split: option.splits)

lemma lease_ok_release: "lease_ok w \<Longrightarrow> lease_ok (release w)"
  by (cases w) (auto simp: release.simps lease_ok_set_held)

lemma lease_ok_env: "lease_ok (u, e) \<Longrightarrow> lease_ok (u, e')"
  by (simp add: lease_ok_def split: option.splits)

lemma lease_ok_acquire_loop:
  "lease_ok w \<Longrightarrow> acquire_loop fuel ri tlim ff w = Some (r, w') \<Longrightarrow> lease_ok w'"
proof (induction fuel arbitrary: w ff)
  case 0
  then show ?case by (cases w) simp
next
  case (Suc n)
  obtain u e where w: "w = (u, e)" by (cases w)
  show ?case
  proof (cases "ff \<or> now e < tlim")
    case False
    with Suc.prems w show ?thesis by auto
  next
    case go: True
    show ?thesis
    proof (cases "is_acquired u")
      case True
      with Suc.prems w go show ?thesis by (auto simp: lease_ok_set_held)
    next
      case False
      show ?thesis
      proof (cases "open_ok e (opened e)")
        case True
        with Suc.prems w go False show ?thesis
          by (auto simp: plyvel_db_factory_def lease_ok_set_held is_acquired_def)
      next
        case busy: False
        show ?thesis
        proof (cases "retry_interval u < 0")
          case True
          with Suc.prems w go False busy show ?thesis
            by (auto simp: plyvel_db_factory_def lease_ok_def split: option.splits)
        next
          case nonneg: False
          from Suc.prems w go False busy nonneg
          have "acquire_loop n ri tlim False (u, sleep (retry_interval u) (e\<lparr>opened := Suc (opened e)\<rparr>)) = Some (r, w')"
            by (simp add: plyvel_db_factory_def)
          moreover have "lease_ok (u, sleep (retry_interval u) (e\<lparr>opened := Suc (opened e)\<rparr>))"
            using Suc.prems(1) w by (simp add: lease_ok_def split: option.splits)
          ultimately show ?thesis by (rule Suc.IH[rotated])
        qed
      qed
    qed
  qed
qed

lemma lease_ok_acquire:
  "lease_ok w \<Longrightarrow> acquire fuel ri timeout w = Some (r, w') \<Longrightarrow> lease_ok w'"
  by (cases w) (auto simp: acquire.simps dest: lease_ok_acquire_loop)

lemma lease_ok_suspend:
  "lease_ok w \<Longrightarrow> suspend_releaser fuel a timeout w = Some (r, w') \<Longrightarrow> lease_ok w'"
  by (cases w) (auto simp: suspend_releaser.simps lease_ok_set_held split: if_splits option.splits sum.splits prod.splits dest: lease_ok_acquire)

lemma lease_ok_restart:
  "lease_ok w \<Longrightarrow> restart_releaser fuel ri a timeout w = Some (r, w') \<Longrightarrow> lease_ok w'"
  by (cases w) (auto simp: restart_releaser.simps lease_ok_set_held split: if_splits option.splits sum.splits prod.splits dest: lease_ok_acquire)

lemma lease_ok_step: "lease_ok w \<Longrightarrow> lease_ok (auto_release_step w)"
  by (cases w) (auto simp: auto_release_step.simps lease_ok_def split: thread.splits option.splits)

lemma lease_ok_close_begin:
  assumes "lease_ok w"
  shows "lease_ok (close_begin w)"
proof (cases w)
  case (Pair u e)
  with assms have "lease_ok (u\<lparr>is_closed := True\<rparr>, e)"
    by (simp add: lease_ok_def split: option.splits)
  then show ?thesis using Pair by (simp add: close_begin.simps lease_ok_release)
qed

lemma lease_ok_gap: "lease_ok w \<Longrightarrow> lease_ok (run_gap gap w)"
proof (induction gap arbitrary: w)
  case Nil
  then show ?case by simp
next
  case (Cons g gs)
  obtain u e where w: "w = (u, e)" by (cases w)
  from Cons.prems w have "lease_ok (take_step g w)"
    by (cases g) (simp_all add: lease_ok_step lease_ok_env)
  then show ?case by (simp add: Cons.IH)
qed

lemma lease_ok_deco:
  assumes "lease_ok w" and "load_leveldb_deco ri timeout func gap fuel w = Some (r, w')"
    and "\<And>v. fst (snd (func v)) = fst v"
  shows "lease_ok w'"
proof -
  from assms(2) obtain b w1 where a: "acquire fuel ri timeout w = Some (b, w1)"
    and d: "w' = w1 \<or> w' = snd (func (run_gap gap w1))"
    by (auto simp: load_leveldb_deco_def split: option.splits sum.splits prod.splits bool.splits if_splits)
  from assms(1) a have "lease_ok w1" by (rule lease_ok_acquire)
  then have "lease_ok (run_gap gap w1)" by (rule lease_ok_gap)
  moreover have "fst (snd (func (run_gap gap w1))) = fst (run_gap gap w1)" by (rule assms(3))
  ultimately show ?thesis using d \<open>lease_ok w1\<close>
    by (auto simp: lease_ok_def split: option.splits)
qed

lemma lease_ok_exit: "lease_ok w \<Longrightarrow> lease_ok (snd (exit exc w))"
  by (simp add: exit_def lease_ok_release)

lemma lease_ok_batch_write: "lease_ok w \<Longrightarrow> lease_ok (snd (WriteBatch_write b w))"
proof (cases w)
  case (Pair u e)
  assume "lease_ok w"
  with Pair have "lease_ok (u, e')" for e' by (simp add: lease_ok_def split: option.splits)
  then show ?thesis using Pair \<open>lease_ok w\<close>
    by (auto simp: WriteBatch_write.simps wb_write_def lease_ok_release split: sum.splits)
qed

lemma lease_ok_batch_exit:
  "lease_ok w \<Longrightarrow> lease_ok (snd (snd (WriteBatch_exit exc (b, w))))"
  using lease_ok_batch_write [of w b]
  by (auto simp: WriteBatch_exit.simps wb_transaction_def split: prod.splits sum.splits)

lemma lease_ok_iter_close: "lease_ok w \<Longrightarrow> lease_ok (snd (Iterator_close (it, w)))"
  by (simp add: Iterator_close.simps lease_ok_release)

lemma lease_ok_iter_del: "lease_ok w \<Longrightarrow> lease_ok (snd (Iterator_del (it, w)))"
  by (simp add: Iterator_del.simps Iterator_close.simps lease_ok_release split: option.splits)

lemma lease_ok_acquire_until:
  "lease_ok w \<Longrightarrow> acquire_until fuel w = Some (r, w') \<Longrightarrow> lease_ok w'"
proof (induction fuel arbitrary: w)
  case 0
  then show ?case by simp
next
  case (Suc n)
  from Suc.prems(2) obtain b w1 where a: "acquire (Suc n) (Some INF_RELEASE_TIME) None w = Some (b, w1)"
    and d: "w' = w1 \<or> acquire_until n w1 = Some (r, w')"
    by (auto split: option.splits sum.splits prod.splits bool.splits if_splits)
  from Suc.prems(1) a have "lease_ok w1" by (rule lease_ok_acquire)
  with d Suc.IH [of w1] show ?case by auto
qed

lemma lease_ok_iter:
  assumes "lease_ok w" and "Iterator_iter fuel (it, w) = Some (r, it', w')"
  shows "lease_ok w'"
proof (cases w)
  case (Pair u e)
  define a where "a = (if is_acquired u then suspend_releaser fuel True None (u, e)
            else acquire_until fuel (u, e))"
  from assms(2) Pair obtain x w1 where a: "a = Some (x, w1)"
    and d: "w' = w1 \<or> w' = release w1"
    by (auto simp: a_def Iterator_iter.simps Iterator_close.simps
        split: option.splits sum.splits prod.splits if_splits)
  from a assms(1) Pair have "lease_ok w1"
    by (auto simp: a_def split: if_splits dest: lease_ok_suspend lease_ok_acquire_until)
  with d show ?thesis by (auto simp: lease_ok_release)
qed

lemma db_get_unit: "fst (snd (db_get key d v)) = fst v"
  by (cases v) (simp split: option.splits)

lemma db_put_unit: "fst (snd (db_put key val v)) = fst v"
  by (cases v) (simp split: option.splits)

lemma db_delete_unit: "fst (snd (db_delete key v)) = fst v"
  by (cases v) (simp split: option.splits)

lemma WriteBatch_init_unit: "fst (snd (WriteBatch_init t s v)) = fst v"
  by (cases v) (simp split: option.splits)

lemma lease_ok_get: "lease_ok w \<Longrightarrow> get fuel key d gap w = Some (r, w') \<Longrightarrow> lease_ok w'"
  unfolding get_def by (erule lease_ok_deco, assumption) (rule db_get_unit)

lemma lease_ok_put: "lease_ok w \<Longrightarrow> put fuel key val gap w = Some (r, w') \<Longrightarrow> lease_ok w'"
  unfolding put_def by (erule lease_ok_deco, assumption) (rule db_put_unit)

lemma lease_ok_delete: "lease_ok w \<Longrightarrow> delete fuel key gap w = Some (r, w') \<Longrightarrow> lease_ok w'"
  unfolding delete_def by (erule lease_ok_deco, assumption) (rule db_delete_unit)

lemma lease_ok_enter: "lease_ok w \<Longrightarrow> enter fuel gap w = Some (r, w') \<Longrightarrow> lease_ok w'"
  unfolding enter_def by (erule lease_ok_deco, assumption) simp

lemma lease_ok_make_iterator:
  "lease_ok w \<Longrightarrow> DBUnit_iterator fuel ik iv gap w = Some (r, w') \<Longrightarrow> lease_ok w'"
  unfolding DBUnit_iterator_def by (erule lease_ok_deco, assumption) simp

lemma lease_ok_write_batch:
  "lease_ok w \<Longrightarrow> write_batch fuel t s gap w = Some (r, w') \<Longrightarrow> lease_ok w'"
  unfolding write_batch_def by (erule lease_ok_deco, assumption) (rule WriteBatch_init_unit)

lemma lease_ok_perform:
  assumes "lease_ok w" and "perform fuel c w = Some w'"
  shows "lease_ok w'"
  using assms
  by (cases c)
    (auto simp: WriteBatch_enter_def lease_ok_release lease_ok_close_begin lease_ok_exit
      lease_ok_batch_write lease_ok_batch_exit lease_ok_iter_close lease_ok_iter_del
      dest: lease_ok_acquire lease_ok_suspend lease_ok_restart lease_ok_iter
        lease_ok_get lease_ok_put lease_ok_delete lease_ok_enter lease_ok_make_iterator
        lease_ok_write_batch)

lemma lease_ok_setstate: "setstate self state = Inr u \<Longrightarrow> lease_ok (u, e)"
  by (auto simp: setstate_def lease_ok_def split: sum.splits)

lemma reachable_lease_ok: "reachable w \<Longrightarrow> lease_ok w"
proof (induction rule: reachable.induct)
  case (constructed p ari ri dt e)
  show ?case by (simp add: lease_ok_def DBUnit_init_def)
next
  case (unpickled self state u e)
  then show ?case by (rule lease_ok_setstate)
next
  case (time_passes u e d)
  then show ?case by (simp add: lease_ok_env)
next
  case (thread_runs w)
  then show ?case by (simp add: lease_ok_step)
next
  case (called w fuel c w')
  then show ?case by (auto dest: lease_ok_perform)
qed

subsection \<open>Closing without a handle\<close>

text \<open>
  The inner loop of the thread does not read \<^verbatim>\<open>is_closed\<close>: while no handle is open it
  waits, whatever the flag. A \<^verbatim>\<open>close()\<close> on a manager without a handle therefore never
  returns from the join.
\<close>

lemma join_without_handle:
  "auto_releaser u = Waiting \<Longrightarrow> db u = None \<Longrightarrow> join fuel (u, e) = None"
  by (induction fuel arbitrary: e) simp_all

lemma close_without_handle:
  "auto_releaser u = Waiting \<Longrightarrow> db u = None \<Longrightarrow> close fuel (u, e) = None"
  by (simp add: close_def close_begin.simps release.simps is_acquired_def join_without_handle)

subsection \<open>Batches\<close>

text \<open>
  \<^verbatim>\<open>WriteBatch.write\<close>, called by the client: the buffered pairs reach the store, a later
  write of a key over an earlier one, and the lease is released.
\<close>

lemma commit_map_of: "commit kvs m = m ++ map_of (rev kvs)"
proof (induction kvs arbitrary: m)
  case Nil
  show ?case by simp
next
  case (Cons kv kvs)
  obtain key val where kv: "kv = (key, val)" by (cases kv)
  have "commit (kv # kvs) m = commit kvs (m(key \<mapsto> val))"
    using kv by simp
  also have "\<dots> = m(key \<mapsto> val) ++ map_of (rev kvs)"
    by (rule Cons.IH)
  also have "\<dots> = m ++ map_of (rev (kv # kvs))"
    using kv by (auto simp: map_add_def fun_eq_iff split: option.splits)
  finally show ?case .
qed

lemma WriteBatch_write_live:
  "wb_db b \<notin> set (closed_handles e) \<Longrightarrow>
   WriteBatch_write b (u, e) = (Inr (), release (u, e\<lparr>store := commit (buffered b) (store e)\<rparr>))"
  by (simp add: WriteBatch_write.simps wb_write_def)

subsection \<open>Runs on the sample worlds\<close>

lemmas sample_defs = idle_env_def busy_env_def default_unit_def started_world_def
  held_world_def entered_world_def closed_world_def reopened_world_def written_world_def
  tx_batch_def fresh_iterator_def DBUnit_init_def leased_until_def hurried_unit_def
  plain_batch_def

lemmas run_simps = acquire.simps set_release_time.simps update_deadline.simps release.simps
  plyvel_db_factory_def val_or_def num_or_def INF_RELEASE_TIME_def is_acquired_def
  timedelta_seconds_0 timedelta_seconds_5 timedelta_seconds_tenth differs_def seconds_def sleep_def
  load_leveldb_deco_def auto_release_step.simps

lemma started: "auto_release_step (default_unit, idle_env) = started_world"
  by (simp add: sample_defs run_simps)

lemma held: "acquire 1 None None started_world = Some (Inr True, held_world)"
  by (simp add: sample_defs run_simps)

lemma close_held: "close 3 held_world = Some closed_world"
proof -
  have b: "close_begin held_world =
      (default_unit\<lparr>auto_releaser := Waiting, db := Some 0, release_time := At 0, lock := 2,
         is_closed := True\<rparr>, idle_env\<lparr>opened := 1\<rparr>)"
    by (simp add: sample_defs run_simps close_begin.simps)
  have j: "join (Suc (Suc (Suc 0)))
      (default_unit\<lparr>auto_releaser := Waiting, db := Some 0, release_time := At 0, lock := 2,
         is_closed := True\<rparr>, idle_env\<lparr>opened := 1\<rparr>) = Some closed_world"
    by (simp add: sample_defs auto_release_step.simps)
  show ?thesis unfolding close_def b numeral_3_eq_3 by (rule j)
qed

lemma reopened: "acquire 1 None None closed_world = Some (Inr True, reopened_world)"
  by (simp add: sample_defs run_simps)

lemma entered: "enter 1 [] started_world = Some (Inr (), entered_world)"
  by (simp add: sample_defs run_simps enter_def)

lemma hurried_fails:
  "acquire 2 None None (hurried_unit, busy_env) =
     Some (Inr False, hurried_unit, busy_env\<lparr>opened := 1, now := 100000\<rparr>)"
  by (simp add: sample_defs run_simps numeral_2_eq_2)

lemma written_again: "acquire 1 None None written_world = Some (Inr True, written_world)"
  by (simp add: sample_defs run_simps)

lemma held_later:
  "acquire 1 None None (fst held_world, snd held_world\<lparr>now := 2000000\<rparr>) =
     Some (Inr True, fst held_world\<lparr>release_time := At 7000000, lock := 2\<rparr>,
           snd held_world\<lparr>now := 2000000\<rparr>)"
  by (simp add: sample_defs run_simps)

section \<open>Scoped batch and iterator: release on every exit path\<close>

text \<open>
  Claim C1 (a scoped batch or iterator gives up its indefinite lease on every exit path,
  also a transactional batch whose scope raised and an iterator never advanced). The
  source does not: run on a manager with the constructor's defaults whose thread is
  waiting, \<^verbatim>\<open>write_batch(transaction=True)\<close> opens handle 0 under an indefinite lease,
  entering the batch keeps it, and \<^verbatim>\<open>__exit__\<close> with an exception leaves at line 53, on
  the read of the flag, before \<^verbatim>\<open>write\<close>, the only place that calls \<^verbatim>\<open>release\<close> (the
  branch that line guards returns before \<^verbatim>\<open>write\<close> as well). Likewise \<^verbatim>\<open>iterator()\<close>
  takes the indefinite lease when the object is made, and \<^verbatim>\<open>__del__\<close> of an iterator that
  was never advanced finds no cursor and does nothing. In both runs the deadline stays
  indefinite with the handle open, and at no later time \<open>t\<close> does the maintenance thread
  close it.
\<close>

theorem C1_lease_stays_indefinite:
  "write_batch 1 True False [] started_world = Some (Inr tx_batch, entered_world) \<and>
   WriteBatch_enter 1 entered_world = Some (Inr (), entered_world) \<and>
   WriteBatch_exit True (WriteBatch_put ''k'' ''v'' tx_batch, entered_world) =
     (Inl AttributeError, WriteBatch_put ''k'' ''v'' tx_batch, entered_world) \<and>
   DBUnit_iterator 1 True True [] started_world = Some (Inr fresh_iterator, entered_world) \<and>
   Iterator_del (fresh_iterator, entered_world) = (fresh_iterator, entered_world) \<and>
   db (fst entered_world) = Some 0 \<and> release_time (fst entered_world) = Unlimited \<and>
   auto_release_step (fst entered_world, snd entered_world\<lparr>now := t\<rparr>) =
     (fst entered_world, snd entered_world\<lparr>now := t\<rparr>)"
  by (simp add: sample_defs run_simps write_batch_def WriteBatch_enter_def
      suspend_releaser.simps WriteBatch_exit.simps wb_transaction_def WriteBatch_put_def
      DBUnit_iterator_def Iterator_del.simps)

section \<open>Acquisition after close\<close>

text \<open>
  Claim C2 (once \<^verbatim>\<open>close()\<close> has been called every \<^verbatim>\<open>acquire\<close> fails and opens nothing)
  fails on the source. A manager acquires handle 0; \<^verbatim>\<open>close()\<close> sets the flag, releases,
  and the joined thread closes the handle and finishes. The next \<^verbatim>\<open>acquire()\<close> returns
  true with the new handle 1, one more open having been made.
\<close>

theorem C2_counterexample:
  "acquire 1 None None (auto_release_step (default_unit, idle_env)) = Some (Inr True, held_world) \<and>
   close 3 held_world = Some closed_world \<and>
   is_closed (fst closed_world) \<and> db (fst closed_world) = None \<and>
   acquire 1 None None closed_world = Some (Inr True, reopened_world) \<and>
   db (fst reopened_world) = Some 1 \<and> opened (snd reopened_world) = Suc (opened (snd closed_world))"
proof -
  have "is_closed (fst closed_world) \<and> db (fst closed_world) = None \<and>
    db (fst reopened_world) = Some 1 \<and> opened (snd reopened_world) = Suc (opened (snd closed_world))"
    by (simp add: sample_defs)
  with held close_held reopened show ?thesis by (simp add: started)
qed

text \<open>
  Claim C2 as amended: \<^verbatim>\<open>acquire\<close> never reads \<^verbatim>\<open>is_closed\<close>. Whatever a call returns on a
  manager, it returns on the same manager with the flag set, in the same world but for
  the flag; and on a closed manager without a handle, when the engine's next open
  succeeds, the call opens that handle and returns true, the flag staying set.
\<close>

theorem C2_acquire_ignores_closed:
  "(acquire fuel ri timeout (u, e) = Some (r, u', e') \<longrightarrow>
      acquire fuel ri timeout (u\<lparr>is_closed := True\<rparr>, e) = Some (r, u'\<lparr>is_closed := True\<rparr>, e')) \<and>
   (is_closed u \<and> db u = None \<and> open_ok e (opened e) \<longrightarrow>
      (\<exists>u1 e1. acquire (Suc n) ri timeout (u, e) = Some (Inr True, u1, e1) \<and>
         db u1 = Some (opened e) \<and> is_closed u1 \<and> opened e1 = Suc (opened e)))"
proof (intro conjI impI)
  assume "acquire fuel ri timeout (u, e) = Some (r, u', e')"
  then show "acquire fuel ri timeout (u\<lparr>is_closed := True\<rparr>, e) = Some (r, u'\<lparr>is_closed := True\<rparr>, e')"
    by (simp add: acquire.simps acquire_loop_is_closed)
next
  assume a: "is_closed u \<and> db u = None \<and> open_ok e (opened e)"
  define w1 where "w1 = set_release_time (val_or ri (PNum (auto_release_interval u)))
    (u\<lparr>db := Some (opened e)\<rparr>, e\<lparr>opened := Suc (opened e)\<rparr>)"
  from a have "acquire (Suc n) ri timeout (u, e) = Some (Inr True, fst w1, snd w1)"
    by (simp add: acquire.simps plyvel_db_factory_def is_acquired_def w1_def)
  moreover have "db (fst w1) = Some (opened e)"
    by (simp add: w1_def set_release_time_db)
  moreover from a have "is_closed (fst w1)"
    by (simp add: w1_def set_release_time_closed_flag)
  moreover have "opened (snd w1) = Suc (opened e)"
    by (simp add: w1_def set_release_time_env)
  ultimately show "\<exists>u1 e1. acquire (Suc n) ri timeout (u, e) = Some (Inr True, u1, e1) \<and>
         db u1 = Some (opened e) \<and> is_closed u1 \<and> opened e1 = Suc (opened e)"
    by blast
qed

text \<open>
  The amended claim C2 on the sample manager: the first acquisition with and without
  the flag, and the acquisition after \<^verbatim>\<open>close()\<close>.
\<close>

theorem C2_witness:
  "acquire 1 None None started_world = Some (Inr True, held_world) \<and>
   acquire 1 None None (fst started_world\<lparr>is_closed := True\<rparr>, snd started_world) =
     Some (Inr True, fst held_world\<lparr>is_closed := True\<rparr>, snd held_world) \<and>
   is_closed (fst closed_world) \<and> db (fst closed_world) = None \<and>
   open_ok (snd closed_world) (opened (snd closed_world)) \<and>
   (\<exists>u1 e1. acquire 1 None None closed_world = Some (Inr True, u1, e1) \<and> db u1 = Some 1 \<and>
      is_closed u1 \<and> opened e1 = 2)"
proof -
  have h: "acquire 1 None None (fst started_world, snd started_world) =
      Some (Inr True, fst held_world, snd held_world)"
    using held by simp
  have c: "is_closed (fst closed_world) \<and> db (fst closed_world) = None \<and>
      open_ok (snd closed_world) (opened (snd closed_world))"
    by (simp add: sample_defs)
  have o: "opened (snd closed_world) = 1" by (simp add: sample_defs)
  from C2_acquire_ignores_closed [of 1 None None "fst started_world" "snd started_world"
      "Inr True" "fst held_world" "snd held_world" 0] h
  have 1: "acquire 1 None None (fst started_world\<lparr>is_closed := True\<rparr>, snd started_world) =
     Some (Inr True, fst held_world\<lparr>is_closed := True\<rparr>, snd held_world)"
    by blast
  from C2_acquire_ignores_closed [of 0 None None "fst closed_world" "snd closed_world"
      "Inr True" "fst closed_world" "snd closed_world" 0] c
  have 2: "\<exists>u1 e1. acquire (Suc 0) None None (fst closed_world, snd closed_world) = Some (Inr True, u1, e1) \<and>
         db u1 = Some (opened (snd closed_world)) \<and> is_closed u1 \<and>
         opened e1 = Suc (opened (snd closed_world))"
    by blast
  from 2 o have 3: "\<exists>u1 e1. acquire 1 None None closed_world = Some (Inr True, u1, e1) \<and>
      db u1 = Some 1 \<and> is_closed u1 \<and> opened e1 = 2"
    by (simp add: numeral_2_eq_2)
  from held 1 c 3 show ?thesis by blast
qed

section \<open>Acquisition with a zero timeout\<close>

text \<open>
  Claim C3 (\<^verbatim>\<open>acquire(timeout=0)\<close> returns without a retry loop) fails on the source:
  \<^verbatim>\<open>timeout or self.default_timeout\<close> takes the zero for a missing argument, so the call is
  the call without a timeout, for every manager and world. With the defaults (timeout
  5 s, retry every 0.1 s) and an engine that never opens, it returns false after 50
  opens and 5 s of sleeping. A negative timeout, which \<^verbatim>\<open>max\<close> raises to zero, gives the
  single attempt, followed by one sleep.
\<close>

theorem C3_zero_timeout_is_default_timeout:
  "acquire fuel ri (Some 0) w = acquire fuel ri None w \<and>
   map_option fst (acquire 51 None (Some 0) (default_unit, busy_env)) = Some (Inr False) \<and>
   map_option (now \<circ> snd \<circ> snd) (acquire 51 None (Some 0) (default_unit, busy_env)) = Some 5000000 \<and>
   map_option (opened \<circ> snd \<circ> snd) (acquire 51 None (Some 0) (default_unit, busy_env)) = Some 50 \<and>
   acquire 2 None (Some (- 1)) (default_unit, busy_env) =
     Some (Inr False, default_unit, busy_env\<lparr>opened := 1, now := 100000\<rparr>)"
proof -
  have "acquire fuel ri (Some 0) w = acquire fuel ri None w"
    by (cases w) (simp add: acquire.simps num_or_def)
  moreover have "map_option fst (acquire 51 None (Some 0) (default_unit, busy_env)) = Some (Inr False)"
    by code_simp
  moreover have "map_option (now \<circ> snd \<circ> snd) (acquire 51 None (Some 0) (default_unit, busy_env)) = Some 5000000"
    by code_simp
  moreover have "map_option (opened \<circ> snd \<circ> snd) (acquire 51 None (Some 0) (default_unit, busy_env)) = Some 50"
    by code_simp
  moreover have "acquire 2 None (Some (- 1)) (default_unit, busy_env) =
     Some (Inr False, default_unit, busy_env\<lparr>opened := 1, now := 100000\<rparr>)"
    by (simp add: sample_defs run_simps eval_nat_numeral)
  ultimately show ?thesis by simp
qed

section \<open>The debounce of deadline updates\<close>

text \<open>
  Claim C4 (a new deadline more than 100 ms from the current one is stored and
  notified) fails on the source: the test reads \<^verbatim>\<open>.seconds\<close>, the whole seconds within
  the day of the difference, and compares them with 0.1. With a handle open and the
  deadline at 10 s, a new deadline half a second later, half a second earlier, or a day
  and half a second later leaves the manager as it was, without a notification; a
  deadline a full second later is stored and notified. So \<^verbatim>\<open>release()\<close> half a second
  before a deadline of 5 s changes nothing.
\<close>

theorem C4_debounce_reads_whole_seconds:
  "set_release_time (PDatetime 10500000) (leased_until 10000000) = leased_until 10000000 \<and>
   set_release_time (PDatetime 9500000) (leased_until 10000000) = leased_until 10000000 \<and>
   set_release_time (PDatetime 86410500000) (leased_until 10000000) = leased_until 10000000 \<and>
   set_release_time (PDatetime 11000000) (leased_until 10000000) =
     (fst (leased_until 11000000)\<lparr>lock := 2\<rparr>, snd (leased_until 11000000)) \<and>
   release (fst held_world, snd held_world\<lparr>now := 4500000\<rparr>) =
     (fst held_world, snd held_world\<lparr>now := 4500000\<rparr>) \<and>
   release_time (fst held_world) = At 5000000"
  by (simp add: sample_defs set_release_time.simps update_deadline.simps INF_RELEASE_TIME_def
      differs_def seconds_def release.simps is_acquired_def)

section \<open>Handle and deadline\<close>

text \<open>
  Claim C5 (the handle is present exactly when the deadline is not absent; without a
  handle there is no concrete deadline). In every reachable world the handle is present
  exactly when the deadline, read as the specification names it, is not absent; without
  a handle the slot \<^verbatim>\<open>_release_time\<close> holds the sentinel, and with one it holds the
  sentinel or an instant.
\<close>

theorem C5_handle_iff_deadline:
  "reachable (u, e) \<Longrightarrow>
     (is_acquired u \<longleftrightarrow> spec_deadline_of u \<noteq> Absent) \<and>
     (db u = None \<longrightarrow> release_time u = Unlimited) \<and>
     (\<forall>h. db u = Some h \<longrightarrow> release_time u = Unlimited \<or> (\<exists>t. release_time u = At t))"
  by (drule reachable_lease_ok)
    (auto simp: lease_ok_def spec_deadline_of_def is_acquired_def
      split: option.splits deadline.splits)

text \<open>
  Claim C5 on two reachable worlds: the manager just constructed, and the one that has
  acquired its handle with a deadline five seconds ahead.
\<close>

theorem C5_witness:
  "reachable held_world \<and> is_acquired (fst held_world) \<and>
   spec_deadline_of (fst held_world) = Instant 5000000 \<and>
   reachable (default_unit, idle_env) \<and> db default_unit = None \<and>
   release_time default_unit = Unlimited"
proof -
  have r0: "reachable (default_unit, idle_env)"
    unfolding default_unit_def by (rule reachable.constructed)
  then have "reachable (auto_release_step (default_unit, idle_env))"
    by (rule reachable.thread_runs)
  then have r1: "reachable started_world" by (simp add: started)
  have "perform 1 (Acquire None None) started_world = Some held_world"
    using held by simp
  with r1 have r2: "reachable held_world" by (rule reachable.called)
  have a: "is_acquired (fst held_world)" and n: "db default_unit = None"
    by (simp_all add: sample_defs is_acquired_def)
  have s: "spec_deadline_of (fst held_world) = Instant 5000000"
    by (simp add: sample_defs spec_deadline_of_def)
  from C5_handle_iff_deadline [of "fst held_world" "snd held_world"] r2
  have "is_acquired (fst held_world) \<longleftrightarrow> spec_deadline_of (fst held_world) \<noteq> Absent"
    by simp
  moreover from C5_handle_iff_deadline [of default_unit idle_env] r0 n
  have "release_time default_unit = Unlimited" by blast
  ultimately show ?thesis using r0 r2 a n s by blast
qed

section \<open>The maintenance loop\<close>

text \<open>
  Claim C6 (the maintenance loop never closes the handle before its deadline). While the
  handle is absent, or the deadline is indefinite, or it is an instant still ahead of the
  clock, a step of the thread leaves handle, deadline and engine alone, and inside the
  inner loop it leaves the whole world as it is. A step that changes any of the three
  starts with an open handle whose deadline is an instant not after the clock, and it
  closes that handle at the engine, clears the slot and resets the deadline; from the
  inner loop in such a state the step does exactly that.
\<close>

theorem C6_closes_only_after_deadline:
  "((db u = None \<or> release_time u = Unlimited \<or> (\<exists>t. release_time u = At t \<and> now e < t)) \<longrightarrow>
      db (fst (auto_release_step (u, e))) = db u \<and>
      release_time (fst (auto_release_step (u, e))) = release_time u \<and>
      snd (auto_release_step (u, e)) = e \<and>
      (auto_releaser u = Waiting \<longrightarrow> auto_release_step (u, e) = (u, e))) \<and>
   ((db (fst (auto_release_step (u, e))) \<noteq> db u \<or>
     release_time (fst (auto_release_step (u, e))) \<noteq> release_time u \<or>
     snd (auto_release_step (u, e)) \<noteq> e) \<longrightarrow>
      (\<exists>h t. db u = Some h \<and> release_time u = At t \<and> t \<le> now e \<and>
         auto_release_step (u, e) =
           (u\<lparr>db := None, release_time := Unlimited, auto_releaser := Loop_head\<rparr>,
            e\<lparr>closed_handles := h # closed_handles e\<rparr>))) \<and>
   (auto_releaser u = Waiting \<and> db u = Some h \<and> release_time u = At t \<and> t \<le> now e \<longrightarrow>
      auto_release_step (u, e) =
        (u\<lparr>db := None, release_time := Unlimited, auto_releaser := Loop_head\<rparr>,
         e\<lparr>closed_handles := h # closed_handles e\<rparr>))"
  by (cases "auto_releaser u"; cases "db u"; cases "release_time u")
    (auto simp: auto_release_step.simps)

text \<open>
  Claim C6 on a world whose deadline is five seconds ahead (the thread waits) and on one
  whose deadline is the present instant (the thread closes handle 0).
\<close>

theorem C6_witness:
  "(\<exists>t. release_time (fst held_world) = At t \<and> now (snd held_world) < t) \<and>
   auto_release_step held_world = held_world \<and>
   auto_releaser (fst (leased_until 0)) = Waiting \<and> db (fst (leased_until 0)) = Some 0 \<and>
   release_time (fst (leased_until 0)) = At 0 \<and> 0 \<le> now (snd (leased_until 0)) \<and>
   auto_release_step (leased_until 0) =
     (fst (leased_until 0)\<lparr>db := None, release_time := Unlimited, auto_releaser := Loop_head\<rparr>,
      snd (leased_until 0)\<lparr>closed_handles := [0]\<rparr>)"
proof -
  have f: "\<exists>t. release_time (fst held_world) = At t \<and> now (snd held_world) < t"
    and w: "auto_releaser (fst held_world) = Waiting"
    by (simp_all add: sample_defs)
  from f have d: "db (fst held_world) = None \<or> release_time (fst held_world) = Unlimited \<or>
      (\<exists>t. release_time (fst held_world) = At t \<and> now (snd held_world) < t)"
    by blast
  have p: "auto_releaser (fst (leased_until 0)) = Waiting \<and> db (fst (leased_until 0)) = Some 0 \<and>
      release_time (fst (leased_until 0)) = At 0 \<and> 0 \<le> now (snd (leased_until 0))"
    by (simp add: sample_defs)
  have c: "closed_handles (snd (leased_until 0)) = []"
    by (simp add: sample_defs)
  note waits = C6_closes_only_after_deadline
    [of "fst held_world" "snd held_world", THEN conjunct1, THEN mp, OF d]
  from waits [THEN conjunct2, THEN conjunct2, THEN conjunct2, THEN mp, OF w]
  have 1: "auto_release_step held_world = held_world" by simp
  note closes = C6_closes_only_after_deadline
    [of "fst (leased_until 0)" "snd (leased_until 0)" 0 0, THEN conjunct2, THEN conjunct2,
      THEN mp, OF p]
  with c have 2: "auto_release_step (leased_until 0) =
     (fst (leased_until 0)\<lparr>db := None, release_time := Unlimited, auto_releaser := Loop_head\<rparr>,
      snd (leased_until 0)\<lparr>closed_handles := [0]\<rparr>)" by simp
  from f 1 p 2 show ?thesis by (intro conjI) simp_all
qed

section \<open>Access through the facade\<close>

text \<open>
  Claim C7 (a successful \<^verbatim>\<open>get\<close>, \<^verbatim>\<open>put\<close> or \<^verbatim>\<open>delete\<close> moves the deadline to now plus
  \<^verbatim>\<open>auto_release_interval\<close>) fails on the source. A \<^verbatim>\<open>put\<close> at time 0 sets the
  deadline to 5 s; a \<^verbatim>\<open>get\<close> 50 ms later succeeds and the deadline is still 5 s, not
  5.05 s: the update is within the debounce and is dropped.
\<close>

theorem C7_counterexample:
  "map_option snd (put 1 ''a'' ''1'' [] started_world) =
     Some (fst written_world, snd written_world\<lparr>now := 0\<rparr>) \<and>
   get 1 ''a'' None [] written_world = Some (Inr (Some ''1''), written_world) \<and>
   release_time (fst written_world) = At 5000000 \<and>
   now (snd written_world) + timedelta_seconds (auto_release_interval (fst written_world)) = 5050000"
  by (simp add: sample_defs run_simps put_def get_def)

text \<open>
  Claim C7 as amended. \<^verbatim>\<open>get\<close>, \<^verbatim>\<open>put\<close> and \<^verbatim>\<open>delete\<close> start with \<^verbatim>\<open>acquire()\<close>, that is the
  loop run with \<^verbatim>\<open>auto_release_interval\<close> and a time limit \<^verbatim>\<open>default_timeout\<close> ahead. When
  it returns false the call raises \<^verbatim>\<open>LevelDBAcquisitionFailure\<close> in the world \<^verbatim>\<open>acquire\<close>
  left, the store untouched and no handle open. When it returns true the handle is open
  and the deadline is settled before the engine is called: it is indefinite for the
  interval \<open>-1\<close>; otherwise it is now plus the interval (for an interval that is not
  negative) when there was no concrete deadline before or the debounce test passes, and
  the deadline from before the call when the test fails. The test fails whenever the two
  instants are within 100 ms and passes whenever they are between a second and a day
  apart. The call then is the engine's, made outside the lock in the world the gap has
  left.
\<close>

theorem C7_access_acquires_first:
  "acquire fuel None None (u, e) =
     acquire_loop fuel (PNum (auto_release_interval u))
       (now e + timedelta_seconds (max (default_timeout u) 0)) True (u, e) \<and>
   (acquire fuel None None (u, e) = Some (Inr False, w1) \<longrightarrow>
      get fuel key d gap (u, e) = Some (Inl LevelDBAcquisitionFailure, w1) \<and>
      put fuel key val gap (u, e) = Some (Inl LevelDBAcquisitionFailure, w1) \<and>
      delete fuel key gap (u, e) = Some (Inl LevelDBAcquisitionFailure, w1) \<and>
      store (snd w1) = store e \<and> \<not> is_acquired (fst w1)) \<and>
   (acquire fuel None None (u, e) = Some (Inr True, u1, e1) \<longrightarrow>
      get fuel key d gap (u, e) = Some (db_get key d (run_gap gap (u1, e1))) \<and>
      put fuel key val gap (u, e) = Some (db_put key val (run_gap gap (u1, e1))) \<and>
      delete fuel key gap (u, e) = Some (db_delete key (run_gap gap (u1, e1))) \<and>
      is_acquired u1 \<and> store e1 = store e \<and>
      release_time u1 =
        (if auto_release_interval u = - 1 then Unlimited
         else case release_time u of
                Unlimited \<Rightarrow> At (max 0 (timedelta_seconds (auto_release_interval u)) + now e1)
              | At cur \<Rightarrow>
                  if differs (max 0 (timedelta_seconds (auto_release_interval u)) + now e1) cur
                  then At (max 0 (timedelta_seconds (auto_release_interval u)) + now e1)
                  else At cur)) \<and>
   (0 \<le> auto_release_interval u \<longrightarrow>
      max 0 (timedelta_seconds (auto_release_interval u)) =
        timedelta_seconds (auto_release_interval u)) \<and>
   (\<bar>t - cur'\<bar> \<le> 100000 \<longrightarrow> \<not> differs t cur') \<and>
   (1000000 \<le> \<bar>t - cur'\<bar> \<and> \<bar>t - cur'\<bar> < 86400000000 \<longrightarrow> differs t cur')"
proof (intro conjI impI)
  show "acquire fuel None None (u, e) =
     acquire_loop fuel (PNum (auto_release_interval u))
       (now e + timedelta_seconds (max (default_timeout u) 0)) True (u, e)"
    by (simp add: acquire.simps val_or_def num_or_def)
  {
    assume f: "acquire fuel None None (u, e) = Some (Inr False, w1)"
    from f show "get fuel key d gap (u, e) = Some (Inl LevelDBAcquisitionFailure, w1)"
      unfolding get_def by (rule deco_False)
    from f show "put fuel key val gap (u, e) = Some (Inl LevelDBAcquisitionFailure, w1)"
      unfolding put_def by (rule deco_False)
    from f show "delete fuel key gap (u, e) = Some (Inl LevelDBAcquisitionFailure, w1)"
      unfolding delete_def by (rule deco_False)
    from f have l: "acquire_loop fuel (val_or None (PNum (auto_release_interval u)))
        (now e + timedelta_seconds (max (num_or None (default_timeout u)) 0)) True (u, e) =
        Some (Inr False, fst w1, snd w1)"
      by (simp add: acquire.simps)
    from acquire_loop_engine [OF l] show "store (snd w1) = store e" by simp
    from acquire_loop_False [OF l] show "\<not> is_acquired (fst w1)" by simp
  }
  {
    assume t: "acquire fuel None None (u, e) = Some (Inr True, u1, e1)"
    from t show "get fuel key d gap (u, e) = Some (db_get key d (run_gap gap (u1, e1)))"
      unfolding get_def by (rule deco_True)
    from t show "put fuel key val gap (u, e) = Some (db_put key val (run_gap gap (u1, e1)))"
      unfolding put_def by (rule deco_True)
    from t show "delete fuel key gap (u, e) = Some (db_delete key (run_gap gap (u1, e1)))"
      unfolding delete_def by (rule deco_True)
    from t have l: "acquire_loop fuel (PNum (auto_release_interval u))
        (now e + timedelta_seconds (max (default_timeout u) 0)) True (u, e) =
        Some (Inr True, u1, e1)"
      by (simp add: acquire.simps val_or_def num_or_def)
    from acquire_loop_engine [OF l] show "store e1 = store e" by simp
    from acquire_loop_True [OF l] obtain v e0 where v: "release_time v = release_time u"
      "is_acquired v" "set_release_time (PNum (auto_release_interval u)) (v, e0) = (u1, e1)"
      by blast
    note n = set_release_time_number_exact [OF v(3)]
    from n v(2) show "is_acquired u1" by (simp add: is_acquired_def)
    from n v(1) show "release_time u1 =
        (if auto_release_interval u = - 1 then Unlimited
         else case release_time u of
                Unlimited \<Rightarrow> At (max 0 (timedelta_seconds (auto_release_interval u)) + now e1)
              | At cur \<Rightarrow>
                  if differs (max 0 (timedelta_seconds (auto_release_interval u)) + now e1) cur
                  then At (max 0 (timedelta_seconds (auto_release_interval u)) + now e1)
                  else At cur)"
      by simp
  }
  {
    assume "0 \<le> auto_release_interval u"
    then show "max 0 (timedelta_seconds (auto_release_interval u)) =
        timedelta_seconds (auto_release_interval u)"
      by (simp add: timedelta_seconds_nonneg max_def)
  }
  {
    assume "\<bar>t - cur'\<bar> \<le> 100000"
    then show "\<not> differs t cur'" by (rule differs_near)
  }
  {
    assume "1000000 \<le> \<bar>t - cur'\<bar> \<and> \<bar>t - cur'\<bar> < 86400000000"
    then show "differs t cur'" by (blast intro: differs_far)
  }
qed

text \<open>
  The amended claim C7 on a first \<^verbatim>\<open>put\<close>, which opens the handle and sets the deadline
  5 s ahead; on the same \<^verbatim>\<open>put\<close> when the thread closes the handle before the engine is
  called; on a \<^verbatim>\<open>get\<close> against an engine that never opens, with a timeout of a tenth of
  a second; and on a \<^verbatim>\<open>get\<close> 50 ms after a \<^verbatim>\<open>put\<close>, which the debounce leaves at the
  deadline of the \<^verbatim>\<open>put\<close>.
\<close>

theorem C7_witness:
  "acquire 1 None None started_world = Some (Inr True, held_world) \<and>
   put 1 ''a'' ''1'' [] started_world = Some (db_put ''a'' ''1'' held_world) \<and>
   release_time (fst held_world) = At 5000000 \<and>
   put 1 ''a'' ''1'' [Wait 5000000, Thread_step] started_world =
     Some (Inl AttributeError,
       fst held_world\<lparr>db := None, release_time := Unlimited, auto_releaser := Loop_head\<rparr>,
       snd held_world\<lparr>now := 5000000, closed_handles := [0]\<rparr>) \<and>
   acquire 2 None None (hurried_unit, busy_env) =
     Some (Inr False, hurried_unit, busy_env\<lparr>opened := 1, now := 100000\<rparr>) \<and>
   get 2 ''a'' None [] (hurried_unit, busy_env) =
     Some (Inl LevelDBAcquisitionFailure, hurried_unit, busy_env\<lparr>opened := 1, now := 100000\<rparr>) \<and>
   acquire 1 None None written_world = Some (Inr True, written_world) \<and>
   \<not> differs 5050000 5000000 \<and>
   release_time (fst written_world) = At 5000000 \<and>
   differs 7000000 5000000 \<and>
   0 \<le> auto_release_interval (fst started_world) \<and>
   max 0 (timedelta_seconds (auto_release_interval (fst started_world))) = 5000000"
proof -
  have h: "acquire 1 None None (fst started_world, snd started_world) =
      Some (Inr True, fst held_world, snd held_world)"
    using held by simp
  note ok = C7_access_acquires_first
    [where fuel = 1 and u = "fst started_world" and e = "snd started_world"
       and ?u1.0 = "fst held_world" and ?e1.0 = "snd held_world"
       and key = "''a''" and val = "''1''" and gap = "[]",
     THEN conjunct2, THEN conjunct2, THEN conjunct1, THEN mp, OF h]
  note late = C7_access_acquires_first
    [where fuel = 1 and u = "fst started_world" and e = "snd started_world"
       and ?u1.0 = "fst held_world" and ?e1.0 = "snd held_world"
       and key = "''a''" and val = "''1''" and gap = "[Wait 5000000, Thread_step]",
     THEN conjunct2, THEN conjunct2, THEN conjunct1, THEN mp, OF h]
  from ok
  have p: "put 1 ''a'' ''1'' [] started_world = Some (db_put ''a'' ''1'' held_world)"
    by simp
  from ok
  have r: "release_time (fst held_world) = At 5000000"
    by (simp add: sample_defs timedelta_seconds_5)
  from late
  have "put 1 ''a'' ''1'' [Wait 5000000, Thread_step] started_world =
      Some (db_put ''a'' ''1'' (run_gap [Wait 5000000, Thread_step] held_world))"
    by simp
  then have g: "put 1 ''a'' ''1'' [Wait 5000000, Thread_step] started_world =
     Some (Inl AttributeError,
       fst held_world\<lparr>db := None, release_time := Unlimited, auto_releaser := Loop_head\<rparr>,
       snd held_world\<lparr>now := 5000000, closed_handles := [0]\<rparr>)"
    by (simp add: sample_defs auto_release_step.simps)
  note fails = C7_access_acquires_first
    [where fuel = 2 and u = hurried_unit and e = busy_env
       and ?w1.0 = "(hurried_unit, busy_env\<lparr>opened := 1, now := 100000\<rparr>)"
       and key = "''a''" and d = None and gap = "[]",
     THEN conjunct2, THEN conjunct1, THEN mp, OF hurried_fails]
  then have f: "get 2 ''a'' None [] (hurried_unit, busy_env) =
     Some (Inl LevelDBAcquisitionFailure, hurried_unit, busy_env\<lparr>opened := 1, now := 100000\<rparr>)"
    by (rule conjunct1)
  have "\<bar>5050000 - 5000000 :: int\<bar> \<le> 100000" by simp
  from C7_access_acquires_first
    [where t = 5050000 and cur' = 5000000, THEN conjunct2, THEN conjunct2, THEN conjunct2,
     THEN conjunct2, THEN conjunct1, THEN mp, OF this]
  have near: "\<not> differs 5050000 5000000" .
  have wa: "acquire 1 None None (fst written_world, snd written_world) =
      Some (Inr True, fst written_world, snd written_world)"
    using written_again by simp
  note debounced = C7_access_acquires_first
    [where fuel = 1 and u = "fst written_world" and e = "snd written_world"
       and ?u1.0 = "fst written_world" and ?e1.0 = "snd written_world",
     THEN conjunct2, THEN conjunct2, THEN conjunct1, THEN mp, OF wa]
  from debounced near have rw: "release_time (fst written_world) = At 5000000"
    by (simp add: sample_defs timedelta_seconds_5)
  have "(1000000 :: int) \<le> \<bar>7000000 - 5000000\<bar> \<and> \<bar>7000000 - 5000000 :: int\<bar> < 86400000000"
    by simp
  from C7_access_acquires_first
    [where t = 7000000 and cur' = 5000000, THEN conjunct2, THEN conjunct2, THEN conjunct2,
     THEN conjunct2, THEN conjunct2, THEN mp, OF this]
  have far: "differs 7000000 5000000" .
  have n: "0 \<le> auto_release_interval (fst started_world)"
    by (simp add: sample_defs)
  from C7_access_acquires_first
    [where u = "fst started_world", THEN conjunct2, THEN conjunct2, THEN conjunct2,
     THEN conjunct1, THEN mp, OF n]
  have m: "max 0 (timedelta_seconds (auto_release_interval (fst started_world))) = 5000000"
    by (simp add: sample_defs timedelta_seconds_5)
  from held p r g hurried_fails f written_again near rw far n m show ?thesis
    by (intro conjI)
qed

section \<open>The manager as a scope\<close>

text \<open>
  Claim C8 (leaving the manager's scope releases on every exit path) fails on the
  source: \<^verbatim>\<open>__exit__\<close> with an exception raises again at line 276, before \<^verbatim>\<open>self.release()\<close>
  on line 277, whatever the world. Entering takes the indefinite lease on handle 0;
  after a block that raised the world is as it was, the handle open and the deadline
  indefinite, and at no later time \<open>t\<close> does the maintenance thread close it. The same
  exit after a normal end sets the deadline to the instant 0 of the call and notifies.
\<close>

theorem C8_exception_exit_keeps_lease:
  "exit True w = (Inl Reraised, w) \<and>
   enter 1 [] started_world = Some (Inr (), entered_world) \<and>
   is_acquired (fst entered_world) \<and> release_time (fst entered_world) = Unlimited \<and>
   exit True entered_world = (Inl Reraised, entered_world) \<and>
   auto_release_step (fst entered_world, snd entered_world\<lparr>now := t\<rparr>) =
     (fst entered_world, snd entered_world\<lparr>now := t\<rparr>) \<and>
   exit False entered_world =
     (Inr (), fst entered_world\<lparr>release_time := At 0, lock := 1\<rparr>, snd entered_world)"
  by (simp add: sample_defs run_simps enter_def exit_def)

section \<open>Pickling round trip\<close>

text \<open>
  Claim C9 (pickling keeps the four configuration fields and nothing else; unpickling
  gives those values and fresh runtime state). \<^verbatim>\<open>__getstate__\<close> has exactly the four keys
  with the four configuration values, and is the same whatever the flag, the lock, the
  thread, the handle and the deadline are. \<^verbatim>\<open>__setstate__\<close> of it, on any blank object, is
  the manager the constructor makes from those four values: no handle, not closed, no
  deadline, a thread just started.
\<close>

theorem C9_pickle_is_configuration:
  "map fst (getstate u) =
     [''default_timeout'', ''path'', ''_auto_release_interval'', ''_retry_interval''] \<and>
   map snd (getstate u) =
     [ONum (default_timeout u), OPath (path u), ONum (auto_release_interval u),
      ONum (retry_interval u)] \<and>
   getstate (u\<lparr>is_closed := c, lock := l, auto_releaser := th, db := h, release_time := r\<rparr>) =
     getstate u \<and>
   setstate self (getstate u) =
     Inr (DBUnit_init (path u) (auto_release_interval u) (retry_interval u) (default_timeout u)) \<and>
   db (DBUnit_init p a ri dt) = None \<and> is_closed (DBUnit_init p a ri dt) = False \<and>
   release_time (DBUnit_init p a ri dt) = Unlimited \<and>
   auto_releaser (DBUnit_init p a ri dt) = Loop_head"
  by (simp add: getstate_def setstate_def setattr_def DBUnit_init_def)

section \<open>A batch that is not transactional\<close>

text \<open>
  Claim C10 (a batch that is not transactional still commits and releases when its scope
  raised) fails on the source: \<^verbatim>\<open>__exit__\<close> reads \<^verbatim>\<open>self.wb.transaction\<close> first, the read
  raises, and the method is left before \<^verbatim>\<open>write\<close> and \<^verbatim>\<open>clear\<close>, for every batch and
  world. A batch that is not transactional, made and entered on the sample manager and
  holding one write, leaves its scope with an exception: the store has no value for the
  key, the buffer is as it was, the handle is open under the indefinite lease and at no
  later time \<open>t\<close> does the maintenance thread close it. \<^verbatim>\<open>write()\<close> called on the same
  batch commits the pair and sets the deadline to the instant 0 of the call.
\<close>

theorem C10_batch_exit_raises_before_write:
  "WriteBatch_exit exc (b, w) = (Inl AttributeError, b, w) \<and>
   write_batch 1 False False [] started_world =
     Some (Inr (plain_batch\<lparr>buffered := []\<rparr>), entered_world) \<and>
   WriteBatch_enter 1 entered_world = Some (Inr (), entered_world) \<and>
   WriteBatch_put ''k'' ''v'' (plain_batch\<lparr>buffered := []\<rparr>) = plain_batch \<and>
   transaction plain_batch = False \<and>
   WriteBatch_exit True (plain_batch, entered_world) =
     (Inl AttributeError, plain_batch, entered_world) \<and>
   store (snd entered_world) ''k'' = None \<and>
   is_acquired (fst entered_world) \<and> release_time (fst entered_world) = Unlimited \<and>
   auto_release_step (fst entered_world, snd entered_world\<lparr>now := t\<rparr>) =
     (fst entered_world, snd entered_world\<lparr>now := t\<rparr>) \<and>
   WriteBatch_write plain_batch entered_world =
     (Inr (), fst entered_world\<lparr>release_time := At 0, lock := 1\<rparr>,
      snd entered_world\<lparr>store := [''k'' \<mapsto> ''v'']\<rparr>)"
  by (simp add: WriteBatch_exit.simps wb_transaction_def)
    (simp add: sample_defs run_simps write_batch_def WriteBatch_enter_def
      suspend_releaser.simps WriteBatch_put_def WriteBatch_write.simps wb_write_def)

end
